theory Spec2Isabelle
  imports Main "HOL-Library.Log_Nat"
begin

section \<open>Python numbers\<close>

text \<open>
  The JSON numbers of a request reach the code as Python \<open>int\<close> (unbounded) or
  \<open>float\<close> (IEEE 754 binary64). A finite float is kept as the rational it denotes;
  Python's \<open>==\<close> identifies the two zeros, and so does this model. The literals
  \<open>Infinity\<close>, \<open>NaN\<close> and \<open>1e999\<close> are accepted by Python's JSON reader, so the
  non-finite floats are inputs as well as results.
\<close>

datatype pyfloat = Fin rat | PInf | NInf | NaN

datatype pynum = PyInt int | PyFloat pyfloat

datatype pyerror = OverflowError | KeyError

text \<open>Nearest integer, ties to the even one.\<close>

definition round_half_even :: "rat \<Rightarrow> int" where
  "round_half_even x =
     (let n = \<lfloor>x\<rfloor>; d = x - of_int n
      in if d < 1 / 2 then n else if 1 / 2 < d then n + 1 else if even n then n else n + 1)"

text \<open>\<open>ilog2 x\<close> is the integer \<open>k\<close> with \<open>2^k \<le> x < 2^(k+1)\<close>, for positive \<open>x\<close>.\<close>

definition ilog2 :: "rat \<Rightarrow> int" where
  "ilog2 x = (if 1 \<le> x then bitlen \<lfloor>x\<rfloor> - 1 else - bitlen (\<lceil>1 / x\<rceil> - 1))"

text \<open>
  Rounding of an exact result to binary64, to nearest with ties to even: 53 significant
  bits, the least exponent of the last place \<open>-1074\<close> (subnormals), the range checked
  by \<open>fl\<close>.
\<close>

definition exponente :: "rat \<Rightarrow> int" where
  "exponente x = max (ilog2 \<bar>x\<bar> - 52) (- 1074)"

definition rnd :: "rat \<Rightarrow> rat" where
  "rnd x =
     (if x = 0 then 0
      else (let e = exponente x in of_int (round_half_even (x / 2 powi e)) * 2 powi e))"

definition fl :: "rat \<Rightarrow> pyfloat" where
  "fl x = (let r = rnd x
           in if 2 ^ 1024 \<le> r then PInf else if r \<le> - (2 ^ 1024) then NInf else Fin r)"

text \<open>\<open>float(n)\<close> for an \<open>int\<close>: "int too large to convert to float" beyond the range.\<close>

definition float_of_int :: "int \<Rightarrow> pyerror + pyfloat" where
  "float_of_int n = (case fl (of_int n) of Fin r \<Rightarrow> Inr (Fin r) | _ \<Rightarrow> Inl OverflowError)"

fun to_float :: "pynum \<Rightarrow> pyerror + pyfloat" where
  "to_float (PyInt n) = float_of_int n"
| "to_float (PyFloat x) = Inr x"

fun fneg :: "pyfloat \<Rightarrow> pyfloat" where
  "fneg (Fin x) = Fin (- x)"
| "fneg PInf = NInf"
| "fneg NInf = PInf"
| "fneg NaN = NaN"

fun fmul :: "pyfloat \<Rightarrow> pyfloat \<Rightarrow> pyfloat" where
  "fmul NaN b = NaN"
| "fmul a NaN = NaN"
| "fmul (Fin x) (Fin y) = fl (x * y)"
| "fmul (Fin x) PInf = (if x = 0 then NaN else if 0 < x then PInf else NInf)"
| "fmul (Fin x) NInf = (if x = 0 then NaN else if 0 < x then NInf else PInf)"
| "fmul PInf (Fin y) = (if y = 0 then NaN else if 0 < y then PInf else NInf)"
| "fmul NInf (Fin y) = (if y = 0 then NaN else if 0 < y then NInf else PInf)"
| "fmul PInf PInf = PInf"
| "fmul PInf NInf = NInf"
| "fmul NInf PInf = NInf"
| "fmul NInf NInf = PInf"

fun fadd :: "pyfloat \<Rightarrow> pyfloat \<Rightarrow> pyfloat" where
  "fadd NaN b = NaN"
| "fadd a NaN = NaN"
| "fadd (Fin x) (Fin y) = fl (x + y)"
| "fadd (Fin x) PInf = PInf"
| "fadd (Fin x) NInf = NInf"
| "fadd PInf (Fin y) = PInf"
| "fadd NInf (Fin y) = NInf"
| "fadd PInf PInf = PInf"
| "fadd PInf NInf = NaN"
| "fadd NInf PInf = NaN"
| "fadd NInf NInf = NInf"

definition fsub :: "pyfloat \<Rightarrow> pyfloat \<Rightarrow> pyfloat" where
  "fsub a b = fadd a (fneg b)"

text \<open>
  The operators \<open>*\<close>, \<open>+\<close> and \<open>-\<close>: exact on two \<open>int\<close>s, otherwise both operands
  are taken to \<open>float\<close> (which raises for an \<open>int\<close> out of range) and the float
  operation never raises.
\<close>

definition py_float_op ::
  "(pyfloat \<Rightarrow> pyfloat \<Rightarrow> pyfloat) \<Rightarrow> pynum \<Rightarrow> pynum \<Rightarrow> pyerror + pynum" where
  "py_float_op f a b =
     (case to_float a of
        Inl e \<Rightarrow> Inl e
      | Inr x \<Rightarrow> (case to_float b of Inl e \<Rightarrow> Inl e | Inr y \<Rightarrow> Inr (PyFloat (f x y))))"

fun py_mul :: "pynum \<Rightarrow> pynum \<Rightarrow> pyerror + pynum" where
  "py_mul (PyInt a) (PyInt b) = Inr (PyInt (a * b))"
| "py_mul a b = py_float_op fmul a b"

fun py_add :: "pynum \<Rightarrow> pynum \<Rightarrow> pyerror + pynum" where
  "py_add (PyInt a) (PyInt b) = Inr (PyInt (a + b))"
| "py_add a b = py_float_op fadd a b"

fun py_sub :: "pynum \<Rightarrow> pynum \<Rightarrow> pyerror + pynum" where
  "py_sub (PyInt a) (PyInt b) = Inr (PyInt (a - b))"
| "py_sub a b = py_float_op fsub a b"

text \<open>
  \<open>round(x, 2)\<close>: an \<open>int\<close> is returned as it is; a finite float goes to the nearest
  decimal with two places of its exact value, ties to even, and from there to the
  nearest float; infinities and NaN round to themselves.
\<close>

fun py_round2 :: "pynum \<Rightarrow> pynum" where
  "py_round2 (PyInt n) = PyInt n"
| "py_round2 (PyFloat (Fin x)) = PyFloat (fl (of_int (round_half_even (x * 100)) / 100))"
| "py_round2 (PyFloat x) = PyFloat x"

text \<open>The comparisons \<open>==\<close> and \<open>>=\<close>; between \<open>int\<close> and \<open>float\<close> Python compares exactly.\<close>

fun exacto :: "pynum \<Rightarrow> pyfloat" where
  "exacto (PyInt n) = Fin (of_int n)"
| "exacto (PyFloat x) = x"

fun feq :: "pyfloat \<Rightarrow> pyfloat \<Rightarrow> bool" where
  "feq (Fin x) (Fin y) = (x = y)"
| "feq PInf PInf = True"
| "feq NInf NInf = True"
| "feq a b = False"

fun fge :: "pyfloat \<Rightarrow> pyfloat \<Rightarrow> bool" where
  "fge NaN b = False"
| "fge a NaN = False"
| "fge (Fin x) (Fin y) = (y \<le> x)"
| "fge PInf b = True"
| "fge a NInf = True"
| "fge a b = False"

definition py_eq :: "pynum \<Rightarrow> pynum \<Rightarrow> bool" where
  "py_eq a b = feq (exacto a) (exacto b)"

definition py_ge :: "pynum \<Rightarrow> pynum \<Rightarrow> bool" where
  "py_ge a b = fge (exacto a) (exacto b)"

text \<open>
  \<open>sum(f(x) for x in xs)\<close>: the generator is consumed from the left, starting from the
  \<open>int\<close> 0, each term computed just before it is added. (From version 3.12 on, CPython
  adds floats with a compensated sum that can differ in the last bit from this plain
  addition, which is that of the earlier versions; on one term both agree.)
\<close>

fun py_sum_gen :: "('a \<Rightarrow> pyerror + pynum) \<Rightarrow> pynum \<Rightarrow> 'a list \<Rightarrow> pyerror + pynum" where
  "py_sum_gen f acc [] = Inr acc"
| "py_sum_gen f acc (x # xs) =
     (case f x of
        Inl e \<Rightarrow> Inl e
      | Inr v \<Rightarrow> (case py_add acc v of Inl e \<Rightarrow> Inl e | Inr acc' \<Rightarrow> py_sum_gen f acc' xs))"

text \<open>\<open>str(n)\<close> of an \<open>int\<close> and \<open>s.zfill(w)\<close>.\<close>

fun digitos :: "nat \<Rightarrow> string" where
  "digitos n =
     (if n < 10 then [''0123456789'' ! n]
      else digitos (n div 10) @ [''0123456789'' ! (n mod 10)])"

declare digitos.simps [simp del]

definition str_int :: "int \<Rightarrow> string" where
  "str_int n = (if n < 0 then CHR ''-'' # digitos (nat (- n)) else digitos (nat n))"

definition zfill :: "nat \<Rightarrow> string \<Rightarrow> string" where
  "zfill w s =
     (let pad = replicate (w - length s) CHR ''0''
      in case s of
           [] \<Rightarrow> pad
         | c # rest \<Rightarrow> if c = CHR ''+'' \<or> c = CHR ''-'' then c # pad @ rest else pad @ s)"

section \<open>The simulated database\<close>

record item =
  cantidad :: pynum
  precioUnitario :: pynum

record totales =
  subtotal :: pynum
  iva :: pynum
  total :: pynum

text \<open>
  An invoice. \<open>fechaEmision\<close> and \<open>fechaVencimientoCAE\<close> hold the instant (in
  microseconds) whose ISO text the code stores and reads back; \<open>estado\<close> is always
  the text \<open>Autorizada\<close>.
\<close>

datatype estado_factura = Autorizada

text \<open>
  A point of sale as it arrives in the body, as far as the code can tell values apart: an
  \<open>int\<close>; a float of integral value below \<open>10^16\<close> in magnitude (\<open>PvFloat n\<close> is
  the float written \<open>n.0\<close>); \<open>true\<close> or \<open>false\<close>; or any other value (a string, a
  list, an object, any other float), which is never equal to an \<open>int\<close> of the
  registry and is kept as the text \<open>str\<close> gives for it.
\<close>

datatype punto = PvInt int | PvFloat int | PvBool bool | PvOtro string

record 'c factura = totales +
  ident :: nat
  tipo :: string
  numero :: string
  puntoVenta :: punto
  cae :: string
  fechaEmision :: int
  fechaVencimientoCAE :: int
  cliente :: 'c
  items :: "item list"
  estado :: estado_factura

record 'c bd =
  facturas :: "'c factura list"
  contadores :: "string \<rightharpoonup> int"

definition bd_inicial :: "'c bd" where
  "bd_inicial = \<lparr>facturas = [], contadores = [''A'' \<mapsto> 1, ''B'' \<mapsto> 1]\<rparr>"

definition puntos_venta :: "int list" where
  "puntos_venta = [1, 2, 3, 4, 5]"

text \<open>
  \<open>x == e\<close> for an \<open>int\<close> \<open>e\<close>, and \<open>x in xs\<close> for a list of \<open>int\<close>s: a float is
  compared by value and \<open>true\<close> is the number 1.
\<close>

fun igual_a_entero :: "punto \<Rightarrow> int \<Rightarrow> bool" where
  "igual_a_entero (PvInt n) e = (n = e)"
| "igual_a_entero (PvFloat n) e = (n = e)"
| "igual_a_entero (PvBool b) e = ((if b then 1 else 0) = e)"
| "igual_a_entero (PvOtro t) e = False"

definition en_lista :: "punto \<Rightarrow> int list \<Rightarrow> bool" where
  "en_lista x xs = list_ex (igual_a_entero x) xs"

text \<open>\<open>str(x)\<close> of a point of sale.\<close>

fun str_punto :: "punto \<Rightarrow> string" where
  "str_punto (PvInt n) = str_int n"
| "str_punto (PvFloat n) = str_int n @ ''.0''"
| "str_punto (PvBool b) = (if b then ''True'' else ''False'')"
| "str_punto (PvOtro t) = t"

text \<open>
  An instant is a number of microseconds from \<open>datetime.min\<close>; \<open>fecha_max\<close> is
  \<open>datetime.max\<close>, the last microsecond of the year 9999. Adding days raises
  OverflowError ("date value out of range") when the result leaves the range.
\<close>

definition fecha_max :: int where
  "fecha_max = 315537897599999999"

definition sumar_dias :: "int \<Rightarrow> int \<Rightarrow> pyerror + int" where
  "sumar_dias fecha dias =
     (let r = fecha + dias * 86400000000
      in if r < 0 \<or> fecha_max < r then Inl OverflowError else Inr r)"

text \<open>
  What a request takes from outside: the clock (\<open>datetime.now()\<close>, an instant between 0
  and \<open>fecha_max\<close>) and the random draw of the CAE.
\<close>

record entorno =
  ahora :: int
  aleatorio :: int

definition generar_cae :: "entorno \<Rightarrow> string" where
  "generar_cae env = str_int (aleatorio env)"

definition generar_numero_factura ::
  "string \<Rightarrow> punto \<Rightarrow> 'c bd \<Rightarrow> pyerror + (string \<times> 'c bd)" where
  "generar_numero_factura tp punto_venta s =
     (case contadores s tp of
        None \<Rightarrow> Inl KeyError
      | Some n \<Rightarrow>
          Inr (zfill 5 (str_punto punto_venta) @ ''-'' @ zfill 8 (str_int n),
               s\<lparr>contadores := (contadores s)(tp \<mapsto> n + 1)\<rparr>))"

definition importe_iva :: pynum where
  "importe_iva = PyFloat (fl (21 / 100))"

definition importe_item :: "item \<Rightarrow> pyerror + pynum" where
  "importe_item it = py_mul (cantidad it) (precioUnitario it)"

definition calcular_totales :: "item list \<Rightarrow> string \<Rightarrow> pyerror + totales" where
  "calcular_totales its tp =
     (case py_sum_gen importe_item (PyInt 0) its of
        Inl e \<Rightarrow> Inl e
      | Inr sub \<Rightarrow>
          if tp = ''A'' then
            (case py_mul sub importe_iva of
               Inl e \<Rightarrow> Inl e
             | Inr iv \<Rightarrow>
                 (case py_add sub iv of
                    Inl e \<Rightarrow> Inl e
                  | Inr tot \<Rightarrow>
                      Inr \<lparr>subtotal = py_round2 sub, iva = py_round2 iv,
                           total = py_round2 tot\<rparr>))
          else
            (case py_mul sub importe_iva of
               Inl e \<Rightarrow> Inl e
             | Inr x \<Rightarrow>
                 (case py_add sub x of
                    Inl e \<Rightarrow> Inl e
                  | Inr tot \<Rightarrow>
                      (let subtotal_neto = tot
                       in case py_sub tot subtotal_neto of
                            Inl e \<Rightarrow> Inl e
                          | Inr iv \<Rightarrow>
                              Inr \<lparr>subtotal = py_round2 subtotal_neto, iva = py_round2 iv,
                                   total = py_round2 tot\<rparr>))))"

section \<open>The handlers\<close>

text \<open>
  The body of a creation request, a JSON object; \<open>None\<close> is a key that is absent or
  null. The type is a string or absent (any other value is refused like an unknown
  string), the items are a list of records of two numbers or absent.
\<close>

record 'c solicitud =
  sol_tipo :: "string option"
  sol_puntoVenta :: "punto option"
  sol_cliente :: 'c
  sol_items :: "item list option"

text \<open>
  The error texts of the code: \<open>TipoInvalido\<close> is "Tipo de factura invalido. Debe ser A o
  B", \<open>PuntoVentaInvalido\<close> is "Punto de venta invalido", \<open>SinItems\<close> is "Debe incluir al
  menos un item", \<open>ErrorAlProcesar e\<close> is "Error al procesar la factura: " followed
  by the exception.
\<close>

datatype mensaje_error = TipoInvalido | PuntoVentaInvalido | SinItems | ErrorAlProcesar pyerror

datatype 'c cuerpo = CuerpoError mensaje_error | FacturaAutorizada "'c factura"

type_synonym 'c respuesta = "'c cuerpo \<times> nat"

text \<open>
  The invoice is built entry by entry, in the order of the source: the identifier, the
  number (which moves the counter), the CAE, the date of issue and the expiry, ten days
  later. An exception at any point is answered with code 500; what was done before it
  stays done.
\<close>

definition crear_factura :: "entorno \<Rightarrow> 'c solicitud \<Rightarrow> 'c bd \<Rightarrow> 'c respuesta \<times> 'c bd" where
  "crear_factura env data s =
     (if sol_tipo data \<notin> {Some ''A'', Some ''B''} then ((CuerpoError TipoInvalido, 400), s)
      else if (case sol_puntoVenta data of None \<Rightarrow> True
               | Some punto_venta \<Rightarrow> \<not> en_lista punto_venta puntos_venta)
        then ((CuerpoError PuntoVentaInvalido, 400), s)
      else if sol_items data = None \<or> sol_items data = Some []
        then ((CuerpoError SinItems, 400), s)
      else
        (let tp = the (sol_tipo data); punto_venta = the (sol_puntoVenta data);
             its = the (sol_items data)
         in case calcular_totales its tp of
              Inl e \<Rightarrow> ((CuerpoError (ErrorAlProcesar e), 500), s)
            | Inr totales \<Rightarrow>
                (let fecha = ahora env
                 in case generar_numero_factura tp punto_venta s of
                      Inl e \<Rightarrow> ((CuerpoError (ErrorAlProcesar e), 500), s)
                    | Inr (num, s') \<Rightarrow>
                        (case sumar_dias fecha 10 of
                           Inl e \<Rightarrow> ((CuerpoError (ErrorAlProcesar e), 500), s')
                         | Inr vencimiento \<Rightarrow>
                             (let factura =
                                \<lparr>subtotal = subtotal totales, iva = iva totales,
                                 total = total totales,
                                 ident = length (facturas s) + 1, tipo = tp, numero = num,
                                 puntoVenta = punto_venta, cae = generar_cae env,
                                 fechaEmision = fecha, fechaVencimientoCAE = vencimiento,
                                 cliente = sol_cliente data, items = its,
                                 estado = Autorizada\<rparr>
                              in ((FacturaAutorizada factura, 201),
                                  s'\<lparr>facturas := facturas s' @ [factura]\<rparr>))))))"

text \<open>The three answers of the CAE check: "CAE no encontrado", "CAE vencido", "CAE valido".\<close>

datatype mensaje_cae = CAE_no_encontrado | CAE_vencido | CAE_valido

record 'c verificacion =
  valido :: bool
  factura_verificada :: "'c factura option"
  mensaje :: mensaje_cae

definition verificar_cae :: "int \<Rightarrow> string \<Rightarrow> 'c bd \<Rightarrow> 'c verificacion" where
  "verificar_cae now c s =
     (case find (\<lambda>f. cae f = c) (facturas s) of
        None \<Rightarrow> \<lparr>valido = False, factura_verificada = None, mensaje = CAE_no_encontrado\<rparr>
      | Some f \<Rightarrow>
          (let vencido = (fechaVencimientoCAE f < now)
           in \<lparr>valido = \<not> vencido, factura_verificada = Some f,
               mensaje = (if vencido then CAE_vencido else CAE_valido)\<rparr>))"

record estadisticas =
  totalFacturas :: nat
  facturasA :: nat
  facturasB :: nat
  totalFacturado :: pynum

definition obtener_estadisticas :: "'c bd \<Rightarrow> pyerror + estadisticas" where
  "obtener_estadisticas s =
     (case py_sum_gen (\<lambda>f. Inr (total f)) (PyInt 0) (facturas s) of
        Inl e \<Rightarrow> Inl e
      | Inr total_facturado \<Rightarrow>
          (let facturas_a = length (filter (\<lambda>f. tipo f = ''A'') (facturas s));
               facturas_b = length (filter (\<lambda>f. tipo f = ''B'') (facturas s))
           in Inr \<lparr>totalFacturas = length (facturas s), facturasA = facturas_a,
                   facturasB = facturas_b, totalFacturado = py_round2 total_facturado\<rparr>))"

section \<open>Sequences of requests\<close>

text \<open>The requests are served one at a time, each on the database the last one left.\<close>

fun ejecutar :: "(entorno \<times> 'c solicitud) list \<Rightarrow> 'c bd \<Rightarrow> 'c respuesta list \<times> 'c bd" where
  "ejecutar [] s = ([], s)"
| "ejecutar ((env, data) # rest) s =
     (case crear_factura env data s of
        (r, s') \<Rightarrow> (case ejecutar rest s' of (rs, s'') \<Rightarrow> (r # rs, s'')))"

text \<open>The invoices of the successful answers, in order.\<close>

fun autorizadas :: "'c respuesta list \<Rightarrow> 'c factura list" where
  "autorizadas [] = []"
| "autorizadas ((FacturaAutorizada f, code) # rs) = f # autorizadas rs"
| "autorizadas ((CuerpoError m, code) # rs) = autorizadas rs"

text \<open>
  The sequence number read back from a formatted number: the digits after the last dash.
\<close>

definition valor_digitos :: "string \<Rightarrow> nat" where
  "valor_digitos cs = foldl (\<lambda>acc c. 10 * acc + (of_char c - 48)) 0 cs"

definition secuencia :: "string \<Rightarrow> nat" where
  "secuencia num = valor_digitos (rev (takeWhile (\<lambda>c. c \<noteq> CHR ''-'') (rev num)))"

text \<open>
  A run used in examples: three requests, of series A, B and A, from three points of
  sale (the second written as the float \<open>2.0\<close>), and the invoices they create.
\<close>

definition solicitudes_ejemplo :: "(entorno \<times> unit solicitud) list" where
  "solicitudes_ejemplo =
     [(\<lparr>ahora = 0, aleatorio = 12345678901234\<rparr>,
       \<lparr>sol_tipo = Some ''A'', sol_puntoVenta = Some (PvInt 1), sol_cliente = (),
        sol_items = Some [\<lparr>cantidad = PyInt 2, precioUnitario = PyInt 100\<rparr>]\<rparr>),
      (\<lparr>ahora = 1000000, aleatorio = 43210987654321\<rparr>,
       \<lparr>sol_tipo = Some ''B'', sol_puntoVenta = Some (PvFloat 2), sol_cliente = (),
        sol_items = Some [\<lparr>cantidad = PyInt 1, precioUnitario = PyInt 121\<rparr>]\<rparr>),
      (\<lparr>ahora = 2000000, aleatorio = 55555555555555\<rparr>,
       \<lparr>sol_tipo = Some ''A'', sol_puntoVenta = Some (PvInt 5), sol_cliente = (),
        sol_items = Some [\<lparr>cantidad = PyInt 3, precioUnitario = PyFloat (Fin (1 / 2))\<rparr>]\<rparr>)]"

definition factura_ejemplo :: "unit factura" where
  "factura_ejemplo =
     \<lparr>subtotal = PyInt 200, iva = PyFloat (Fin 42), total = PyFloat (Fin 242),
      ident = 1, tipo = ''A'', numero = ''00001-00000001'', puntoVenta = PvInt 1,
      cae = ''12345678901234'', fechaEmision = 0, fechaVencimientoCAE = 864000000000,
      cliente = (), items = [\<lparr>cantidad = PyInt 2, precioUnitario = PyInt 100\<rparr>],
      estado = Autorizada\<rparr>"

definition factura_ejemplo_2 :: "unit factura" where
  "factura_ejemplo_2 =
     \<lparr>subtotal = PyFloat (fl (14641 / 100)), iva = PyFloat (Fin 0),
      total = PyFloat (fl (14641 / 100)),
      ident = 2, tipo = ''B'', numero = ''002.0-00000001'', puntoVenta = PvFloat 2,
      cae = ''43210987654321'', fechaEmision = 1000000, fechaVencimientoCAE = 864001000000,
      cliente = (), items = [\<lparr>cantidad = PyInt 1, precioUnitario = PyInt 121\<rparr>],
      estado = Autorizada\<rparr>"

definition factura_ejemplo_3 :: "unit factura" where
  "factura_ejemplo_3 =
     \<lparr>subtotal = PyFloat (Fin (3 / 2)), iva = PyFloat (fl (8 / 25)),
      total = PyFloat (fl (181 / 100)),
      ident = 3, tipo = ''A'', numero = ''00005-00000002'', puntoVenta = PvInt 5,
      cae = ''55555555555555'', fechaEmision = 2000000, fechaVencimientoCAE = 864002000000,
      cliente = (),
      items = [\<lparr>cantidad = PyInt 3, precioUnitario = PyFloat (Fin (1 / 2))\<rparr>],
      estado = Autorizada\<rparr>"

definition bd_ejemplo :: "unit bd" where
  "bd_ejemplo =
     \<lparr>facturas = [factura_ejemplo, factura_ejemplo_2, factura_ejemplo_3],
      contadores = [''A'' \<mapsto> 3, ''B'' \<mapsto> 2]\<rparr>"

text \<open>
  A second run: a request of series A served when the clock reads 22 December 9999,
  00:00:00, so that the expiry ten days later is out of range, then a request of series
  A from the point of sale \<open>true\<close> at an ordinary time.
\<close>

definition solicitudes_con_fallo :: "(entorno \<times> unit solicitud) list" where
  "solicitudes_con_fallo =
     [(\<lparr>ahora = 315537033600000000, aleatorio = 12345678901234\<rparr>,
       \<lparr>sol_tipo = Some ''A'', sol_puntoVenta = Some (PvInt 1), sol_cliente = (),
        sol_items = Some [\<lparr>cantidad = PyInt 2, precioUnitario = PyInt 100\<rparr>]\<rparr>),
      (\<lparr>ahora = 0, aleatorio = 12345678901234\<rparr>,
       \<lparr>sol_tipo = Some ''A'', sol_puntoVenta = Some (PvBool True), sol_cliente = (),
        sol_items = Some [\<lparr>cantidad = PyInt 2, precioUnitario = PyInt 100\<rparr>]\<rparr>)]"

definition factura_tras_fallo :: "unit factura" where
  "factura_tras_fallo =
     \<lparr>subtotal = PyInt 200, iva = PyFloat (Fin 42), total = PyFloat (Fin 242),
      ident = 1, tipo = ''A'', numero = ''0True-00000002'', puntoVenta = PvBool True,
      cae = ''12345678901234'', fechaEmision = 0, fechaVencimientoCAE = 864000000000,
      cliente = (), items = [\<lparr>cantidad = PyInt 2, precioUnitario = PyInt 100\<rparr>],
      estado = Autorizada\<rparr>"

text \<open>The sequence numbers of the stored invoices of one series, in the order of storage.\<close>

definition secuencias :: "string \<Rightarrow> 'c factura list \<Rightarrow> nat list" where
  "secuencias tp fs = map (\<lambda>f. secuencia (numero f)) (filter (\<lambda>f. tipo f = tp) fs)"

text \<open>
  The expiry of an invoice issued now is a date: the clock is at least ten days before
  \<open>datetime.max\<close>.
\<close>

definition vencimiento_en_rango :: "entorno \<Rightarrow> bool" where
  "vencimiento_en_rango env \<longleftrightarrow> 0 \<le> ahora env \<and> ahora env + 10 * 86400000000 \<le> fecha_max"

text \<open>An item of \<open>int\<close> quantity and price.\<close>

definition item_entero :: "int \<times> int \<Rightarrow> item" where
  "item_entero qp = \<lparr>cantidad = PyInt (fst qp), precioUnitario = PyInt (snd qp)\<rparr>"





text \<open>
  A float that is not negative (possibly infinite), and the running sum of amounts that
  are not negative: an \<open>int\<close> that is not negative, or such a float that is a result of
  rounding.
\<close>

fun float_no_negativo :: "pyfloat \<Rightarrow> bool" where
  "float_no_negativo (Fin x) = (0 \<le> x)"
| "float_no_negativo PInf = True"
| "float_no_negativo x = False"

fun acumulado_no_negativo :: "pynum \<Rightarrow> bool" where
  "acumulado_no_negativo (PyInt k) = (0 \<le> k)"
| "acumulado_no_negativo (PyFloat (Fin x)) = (0 \<le> x \<and> rnd x = x)"
| "acumulado_no_negativo (PyFloat x) = (x = PInf)"

section \<open>The spec's formulas\<close>

text \<open>
  Following the spec's words, for comparison with the code: rounding to two decimals
  with ties going up ("half-up") in place of Python's \<open>round\<close>.
\<close>

fun redondear_half_up :: "pynum \<Rightarrow> pynum" where
  "redondear_half_up (PyInt n) = PyInt n"
| "redondear_half_up (PyFloat (Fin x)) = PyFloat (fl (of_int \<lfloor>x * 100 + 1 / 2\<rfloor> / 100))"
| "redondear_half_up (PyFloat x) = PyFloat x"

text \<open>
  Following the spec's words: the series-B total as the sum times 1.21, rounded to two
  decimals; once with Python's operators, once in exact arithmetic.
\<close>

definition total_B_segun_spec :: "pynum \<Rightarrow> pyerror + pynum" where
  "total_B_segun_spec s =
     (case py_mul s (PyFloat (fl (121 / 100))) of
        Inl e \<Rightarrow> Inl e
      | Inr p \<Rightarrow> Inr (py_round2 p))"

definition total_B_exacto :: "rat \<Rightarrow> pyfloat" where
  "total_B_exacto x = fl (of_int (round_half_even (x * (121 / 100) * 100)) / 100)"

text \<open>An amount that is finite and not negative.\<close>

fun no_negativo :: "pynum \<Rightarrow> bool" where
  "no_negativo (PyInt n) = (0 \<le> n)"
| "no_negativo (PyFloat (Fin x)) = (0 \<le> x)"
| "no_negativo (PyFloat x) = False"

section \<open>Binary64 rounding\<close>

text \<open>
  The integer logarithm is the one its comment says; rounding is monotone on the
  non-negative numbers, leaves every number with at most 53 significant bits where it is,
  and moves a number of the normal range by at most the fraction \<open>2^-53\<close> of it.
\<close>


lemma bitlen_potencias:
  assumes "0 < n"
  shows "2 powi (bitlen n - 1) \<le> (of_int n :: rat)" and "(of_int n :: rat) < 2 powi (bitlen n)"
proof -
  have b: "1 \<le> bitlen n" using assms bitlen_nonneg [of n] bitlen_eq_zero_iff [of n]
    by (cases "bitlen n = 0") auto
  from bitlen_bounds [OF assms]
  have l: "2 ^ nat (bitlen n - 1) \<le> n" and u: "n < 2 ^ nat (bitlen n)" by auto
  have "(2::rat) powi (bitlen n - 1) = 2 ^ nat (bitlen n - 1)"
    using b by (simp add: power_int_def)
  also have "\<dots> = of_int (2 ^ nat (bitlen n - 1))" by simp
  also have "\<dots> \<le> of_int n" using l by (simp only: of_int_le_iff)
  finally show "2 powi (bitlen n - 1) \<le> (of_int n :: rat)" .
  have "(of_int n :: rat) < of_int (2 ^ nat (bitlen n))" using u by (simp only: of_int_less_iff)
  also have "\<dots> = 2 ^ nat (bitlen n)" by simp
  also have "\<dots> = 2 powi (bitlen n)" using b by (simp add: power_int_def)
  finally show "(of_int n :: rat) < 2 powi (bitlen n)" .
qed

lemma ilog2_bounds:
  assumes "0 < x"
  shows "2 powi (ilog2 x) \<le> x \<and> x < 2 powi (ilog2 x + 1)"
proof (cases "1 \<le> x")
  case True
  then have n: "0 < \<lfloor>x\<rfloor>" by simp
  have i: "ilog2 x = bitlen \<lfloor>x\<rfloor> - 1" using True by (simp add: ilog2_def)
  have "2 powi (bitlen \<lfloor>x\<rfloor> - 1) \<le> (of_int \<lfloor>x\<rfloor> :: rat)" by (rule bitlen_potencias [OF n])
  also have "\<dots> \<le> x" by simp
  finally have l: "2 powi (ilog2 x) \<le> x" by (simp only: i)
  have "\<lfloor>x\<rfloor> + 1 \<le> 2 ^ nat (bitlen \<lfloor>x\<rfloor>)" using bitlen_bounds [OF n] by simp
  then have "(of_int (\<lfloor>x\<rfloor> + 1) :: rat) \<le> of_int (2 ^ nat (bitlen \<lfloor>x\<rfloor>))"
    by (simp only: of_int_le_iff)
  also have "\<dots> = 2 powi (bitlen \<lfloor>x\<rfloor>)"
    using bitlen_nonneg [of "\<lfloor>x\<rfloor>"] by (simp add: power_int_def)
  finally have "(of_int (\<lfloor>x\<rfloor> + 1) :: rat) \<le> 2 powi (bitlen \<lfloor>x\<rfloor>)" .
  moreover have "x < of_int (\<lfloor>x\<rfloor> + 1)" by linarith
  ultimately have "x < 2 powi (ilog2 x + 1)" by (simp add: i)
  with l show ?thesis ..
next
  case False
  define m where "m = \<lceil>1 / x\<rceil> - 1"
  have y: "1 < 1 / x" using False assms by simp
  then have m: "0 < m" by (simp add: m_def less_ceiling_iff)
  have i: "ilog2 x = - bitlen m" using False by (simp add: ilog2_def m_def)
  have lo: "(of_int m :: rat) < 1 / x" by (simp add: m_def) linarith
  have hi: "1 / x \<le> of_int (m + 1)" by (simp add: m_def le_of_int_ceiling)
  have "m + 1 \<le> 2 ^ nat (bitlen m)" using bitlen_bounds [OF m] by simp
  then have "(of_int (m + 1) :: rat) \<le> of_int (2 ^ nat (bitlen m))" by (simp only: of_int_le_iff)
  also have "\<dots> = 2 powi (bitlen m)" using bitlen_nonneg [of m] by (simp add: power_int_def)
  finally have "1 / x \<le> 2 powi (bitlen m)" using hi by linarith
  then have "1 \<le> 2 powi (bitlen m) * x" using assms by (simp add: divide_le_eq)
  then have "1 / 2 powi (bitlen m) \<le> x" by (simp add: divide_le_eq mult.commute)
  then have l: "2 powi (ilog2 x) \<le> x" by (simp add: i power_int_minus_divide)
  have "2 powi (bitlen m - 1) < 1 / x" using bitlen_potencias(1) [OF m] lo by linarith
  then have "2 powi (bitlen m - 1) * x < 1" using assms by (simp add: less_divide_eq)
  then have "x < 1 / 2 powi (bitlen m - 1)" by (simp add: less_divide_eq mult.commute)
  also have "\<dots> = 2 powi (- (bitlen m - 1))" by (simp only: power_int_minus_divide)
  finally have "x < 2 powi (ilog2 x + 1)" by (simp add: i)
  with l show ?thesis ..
qed

lemma ilog2_unique:
  assumes "2 powi k \<le> x" and "x < 2 powi (k + 1)"
  shows "ilog2 x = k"
proof -
  have pos: "0 < x" using assms(1) by (meson less_le_trans zero_less_numeral zero_less_power_int)
  note b = ilog2_bounds [OF pos]
  have "\<not> ilog2 x < k"
  proof
    assume "ilog2 x < k"
    then have "(2::rat) powi (ilog2 x + 1) \<le> 2 powi k" by (intro power_int_increasing) auto
    with b assms show False by linarith
  qed
  moreover have "\<not> k < ilog2 x"
  proof
    assume "k < ilog2 x"
    then have "(2::rat) powi (k + 1) \<le> 2 powi (ilog2 x)" by (intro power_int_increasing) auto
    with b assms show False by linarith
  qed
  ultimately show ?thesis by linarith
qed


lemma ilog2_ge_iff:
  assumes "0 < x"
  shows "k \<le> ilog2 x \<longleftrightarrow> 2 powi k \<le> x"
proof
  assume "k \<le> ilog2 x"
  then have "(2::rat) powi k \<le> 2 powi (ilog2 x)" by (intro power_int_increasing) auto
  with ilog2_bounds [OF assms] show "2 powi k \<le> x" by linarith
next
  assume h: "2 powi k \<le> x"
  show "k \<le> ilog2 x"
  proof (rule ccontr)
    assume "\<not> k \<le> ilog2 x"
    then have "(2::rat) powi (ilog2 x + 1) \<le> 2 powi k" by (intro power_int_increasing) auto
    with ilog2_bounds [OF assms] h show False by linarith
  qed
qed

lemma ilog2_mono: "0 < x \<Longrightarrow> x \<le> y \<Longrightarrow> ilog2 x \<le> ilog2 y"
  using ilog2_ge_iff [of y "ilog2 x"] ilog2_bounds [of x] by simp

subsection \<open>Rounding to an integer\<close>

lemma rhe_of_int [simp]: "round_half_even (of_int n) = n"
  by (simp add: round_half_even_def)

lemma rhe_bounds: "\<bar>of_int (round_half_even x) - x\<bar> \<le> 1 / 2"
proof -
  define d where "d = x - of_int \<lfloor>x\<rfloor>"
  have d: "0 \<le> d" "d < 1" by (simp_all add: d_def) linarith
  have x: "x = of_int \<lfloor>x\<rfloor> + d" by (simp add: d_def)
  have "round_half_even x = \<lfloor>x\<rfloor> \<and> d \<le> 1 / 2 \<or> round_half_even x = \<lfloor>x\<rfloor> + 1 \<and> 1 / 2 \<le> d"
    unfolding round_half_even_def Let_def d_def [symmetric] by auto
  then show ?thesis
  proof
    assume "round_half_even x = \<lfloor>x\<rfloor> \<and> d \<le> 1 / 2"
    then have "of_int (round_half_even x) - x = - d" and "d \<le> 1 / 2" using x by auto
    with d show ?thesis by simp
  next
    assume "round_half_even x = \<lfloor>x\<rfloor> + 1 \<and> 1 / 2 \<le> d"
    then have "of_int (round_half_even x) - x = 1 - d" and "1 / 2 \<le> d" using x by auto
    with d show ?thesis by simp
  qed
qed

lemma rhe_le_floor_Suc: "round_half_even x \<le> \<lfloor>x\<rfloor> + 1"
  by (simp add: round_half_even_def Let_def)

lemma rhe_ge_floor: "\<lfloor>x\<rfloor> \<le> round_half_even x"
  by (simp add: round_half_even_def Let_def)

lemma rhe_mono:
  assumes "x \<le> y"
  shows "round_half_even x \<le> round_half_even y"
proof (cases "\<lfloor>x\<rfloor> = \<lfloor>y\<rfloor>")
  case True
  with assms show ?thesis
    by (auto simp: round_half_even_def Let_def)
next
  case False
  with assms have "\<lfloor>x\<rfloor> < \<lfloor>y\<rfloor>" by (simp add: floor_mono order.not_eq_order_implies_strict)
  with rhe_le_floor_Suc [of x] rhe_ge_floor [of y] show ?thesis by linarith
qed


subsection \<open>Rounding to 53 bits\<close>

lemma two_powi_pos [simp]: "(0::rat) < 2 powi k"
  by simp

lemma two_powi_split: "(2::rat) powi (e + int n) = 2 powi e * 2 ^ n"
  by (simp add: power_int_add)

lemma exponente_ge: "- 1074 \<le> exponente x"
  by (simp add: exponente_def)

lemma exponente_upper:
  assumes "x \<noteq> 0"
  shows "\<bar>x\<bar> < 2 powi exponente x * 2 ^ 53"
proof -
  have "\<bar>x\<bar> < 2 powi (ilog2 \<bar>x\<bar> + 1)" using ilog2_bounds [of "\<bar>x\<bar>"] assms by simp
  also have "\<dots> \<le> 2 powi (exponente x + 53)"
    by (intro power_int_increasing) (auto simp: exponente_def)
  also have "\<dots> = 2 powi exponente x * 2 ^ 53"
    using two_powi_split [of "exponente x" 53] by simp
  finally show ?thesis .
qed

lemma exponente_lower:
  assumes "x \<noteq> 0" and "- 1074 < exponente x"
  shows "2 powi exponente x * 2 ^ 52 \<le> \<bar>x\<bar>"
proof -
  have e: "exponente x = ilog2 \<bar>x\<bar> - 52" using assms(2) by (auto simp: exponente_def max_def split: if_splits)
  have "2 powi exponente x * 2 ^ 52 = (2::rat) powi (exponente x + 52)"
    using two_powi_split [of "exponente x" 52] by simp
  also have "\<dots> = 2 powi (ilog2 \<bar>x\<bar>)" by (simp add: e)
  also have "\<dots> \<le> \<bar>x\<bar>" using ilog2_bounds [of "\<bar>x\<bar>"] assms by simp
  finally show ?thesis .
qed

lemma rnd_0 [simp]: "rnd 0 = 0"
  by (simp add: rnd_def)

lemma rnd_eq: "x \<noteq> 0 \<Longrightarrow> rnd x = of_int (round_half_even (x / 2 powi exponente x)) * 2 powi exponente x"
  by (simp add: rnd_def Let_def)

lemma rnd_mantisa:
  assumes "x \<noteq> 0"
  shows "\<bar>round_half_even (x / 2 powi exponente x)\<bar> \<le> 2 ^ 53"
proof -
  let ?e = "exponente x"
  define z where "z = x / 2 powi ?e"
  have "\<bar>z\<bar> < 2 ^ 53"
    using exponente_upper [OF assms] by (simp add: z_def abs_divide divide_less_eq mult.commute)
  then have "z \<le> of_int (2 ^ 53)" and "of_int (- (2 ^ 53)) \<le> z"
    by (simp_all add: abs_less_iff)
  then have a: "x / 2 powi ?e \<le> of_int (2 ^ 53)" and b: "of_int (- (2 ^ 53)) \<le> x / 2 powi ?e"
    by (simp_all only: z_def)
  from rhe_mono [OF a] rhe_mono [OF b] show ?thesis
    by (simp only: rhe_of_int abs_le_iff) simp
qed

lemma rnd_nonneg:
  assumes "0 \<le> x"
  shows "0 \<le> rnd x"
proof (cases "x = 0")
  case True
  then show ?thesis by simp
next
  case False
  have "of_int 0 \<le> x / 2 powi exponente x" using assms by simp
  from rhe_mono [OF this] have "0 \<le> round_half_even (x / 2 powi exponente x)"
    by (simp only: rhe_of_int)
  then show ?thesis by (simp add: rnd_eq [OF False])
qed

lemma rnd_normal_ge:
  assumes "0 < x" and "- 1074 < exponente x"
  shows "2 powi exponente x * 2 ^ 52 \<le> rnd x"
proof -
  let ?e = "exponente x"
  have x: "x \<noteq> 0" using assms by simp
  have "2 powi ?e * 2 ^ 52 \<le> x" using exponente_lower [OF x assms(2)] assms(1) by simp
  then have "of_int (2 ^ 52) \<le> x / 2 powi ?e"
    by (simp add: le_divide_eq mult.commute)
  from rhe_mono [OF this] have "2 ^ 52 \<le> round_half_even (x / 2 powi ?e)"
    by (simp only: rhe_of_int)
  then have "(2::rat) ^ 52 \<le> of_int (round_half_even (x / 2 powi ?e))"
    by (metis of_int_le_iff of_int_numeral of_int_power)
  then have "2 ^ 52 * 2 powi ?e \<le> (of_int (round_half_even (x / 2 powi ?e)) :: rat) * 2 powi ?e"
    by (intro mult_right_mono) auto
  then show ?thesis by (simp add: rnd_eq [OF x] mult.commute)
qed

lemma rnd_le_top:
  assumes "0 < x"
  shows "rnd x \<le> 2 powi exponente x * 2 ^ 53"
proof -
  let ?e = "exponente x"
  have x: "x \<noteq> 0" using assms by simp
  have "round_half_even (x / 2 powi ?e) \<le> 2 ^ 53" using rnd_mantisa [OF x] by simp
  then have "of_int (round_half_even (x / 2 powi ?e)) \<le> (2::rat) ^ 53"
    by (metis of_int_le_iff of_int_numeral of_int_power)
  then have "(of_int (round_half_even (x / 2 powi ?e)) :: rat) * 2 powi ?e \<le> 2 ^ 53 * 2 powi ?e"
    by (intro mult_right_mono) auto
  then show ?thesis by (simp add: rnd_eq [OF x] mult.commute)
qed

lemma exponente_mono: "0 < x \<Longrightarrow> x \<le> y \<Longrightarrow> exponente x \<le> exponente y"
  using ilog2_mono [of x y] by (simp add: exponente_def max_def)

lemma rnd_mono:
  assumes "0 \<le> x" and "x \<le> y"
  shows "rnd x \<le> rnd y"
proof (cases "x = 0")
  case True
  with assms rnd_nonneg [of y] show ?thesis by simp
next
  case False
  with assms have x: "0 < x" and y: "0 < y" by auto
  have le: "exponente x \<le> exponente y" using exponente_mono [OF x assms(2)] .
  show ?thesis
  proof (cases "exponente x = exponente y")
    case True
    have "x / 2 powi exponente y \<le> y / 2 powi exponente y"
      using assms(2) by (simp add: divide_right_mono)
    from rhe_mono [OF this]
    have "(of_int (round_half_even (x / 2 powi exponente y)) :: rat) \<le>
          of_int (round_half_even (y / 2 powi exponente y))" by simp
    then have "(of_int (round_half_even (x / 2 powi exponente y)) :: rat) * 2 powi exponente y \<le>
          of_int (round_half_even (y / 2 powi exponente y)) * 2 powi exponente y"
      by (intro mult_right_mono) auto
    with x y True show ?thesis by (simp add: rnd_eq)
  next
    case False
    with le have lt: "exponente x + 1 \<le> exponente y" by simp
    then have n: "- 1074 < exponente y" using exponente_ge [of x] by linarith
    have "rnd x \<le> 2 powi exponente x * 2 ^ 53" by (rule rnd_le_top [OF x])
    also have "\<dots> = 2 powi (exponente x + 1) * 2 ^ 52"
      by (simp add: power_int_add)
    also have "\<dots> \<le> 2 powi exponente y * 2 ^ 52"
      using lt by (intro mult_right_mono power_int_increasing) auto
    also have "\<dots> \<le> rnd y" by (rule rnd_normal_ge [OF y n])
    finally show ?thesis .
  qed
qed


lemma rnd_entero:
  assumes "x / 2 powi exponente x = of_int j"
  shows "rnd x = x"
proof (cases "x = 0")
  case True
  then show ?thesis by simp
next
  case False
  have "rnd x = of_int (round_half_even (of_int j)) * 2 powi exponente x"
    using assms by (simp add: rnd_eq [OF False])
  also have "\<dots> = x / 2 powi exponente x * 2 powi exponente x"
    by (simp only: rhe_of_int assms)
  also have "\<dots> = x" by simp
  finally show ?thesis .
qed

lemma rnd_representable:
  assumes "- 1074 \<le> e" and "\<bar>m\<bar> \<le> 2 ^ 53"
  shows "rnd (of_int m * 2 powi e) = of_int m * 2 powi e"
proof (cases "m = 0")
  case True
  then show ?thesis by simp
next
  case False
  define r :: rat where "r = of_int m * 2 powi e"
  have r0: "r \<noteq> 0" using False by (simp add: r_def)
  have ar: "\<bar>r\<bar> = of_int \<bar>m\<bar> * 2 powi e" by (simp add: r_def abs_mult)
  have rpos: "0 < \<bar>r\<bar>" using r0 by simp
  show ?thesis
  proof (cases "\<bar>m\<bar> = 2 ^ 53")
    case True
    have "\<bar>r\<bar> = 2 ^ 53 * 2 powi e" by (simp add: ar True)
    also have "\<dots> = 2 powi (e + 53)" using two_powi_split [of e 53] by simp
    finally have p: "\<bar>r\<bar> = 2 powi (e + 53)" .
    have "(2::rat) powi (e + 53) < 2 powi (e + 53 + 1)"
      by (intro power_int_strict_increasing) auto
    then have "ilog2 \<bar>r\<bar> = e + 53"
      by (intro ilog2_unique) (simp_all only: p order_refl)
    then have ex: "exponente r = e + 1" using assms(1) by (simp add: exponente_def)
    have h: "2 powi (e + 1) = (2::rat) powi e * 2" using two_powi_split [of e 1] by simp
    have "r / 2 powi exponente r = r / (2 powi e * 2)" by (simp only: ex h)
    also have "\<dots> = of_int m / 2" by (simp add: r_def)
    finally have "r / 2 powi exponente r = of_int m / 2" .
    moreover have "m = 2 ^ 53 \<or> m = - (2 ^ 53)" using True by (auto simp: abs_if split: if_splits)
    then have "m = 2 * (m div 2)" by auto
    then have "(of_int m :: rat) / 2 = of_int (m div 2)"
      by (metis nonzero_mult_div_cancel_left of_int_mult of_int_numeral zero_neq_numeral)
    ultimately have "r / 2 powi exponente r = of_int (m div 2)" by simp
    from rnd_entero [OF this] show ?thesis by (simp add: r_def)
  next
    case False
    with assms(2) have "\<bar>m\<bar> < 2 ^ 53" by simp
    then have "(of_int \<bar>m\<bar> :: rat) < 2 ^ 53"
      by (metis of_int_less_iff of_int_numeral of_int_power)
    then have "\<bar>r\<bar> < 2 ^ 53 * 2 powi e" by (simp add: ar)
    also have "\<dots> = 2 powi (e + 53)" using two_powi_split [of e 53] by simp
    finally have "\<not> 2 powi (e + 53) \<le> \<bar>r\<bar>" by simp
    then have "\<not> e + 53 \<le> ilog2 \<bar>r\<bar>" using ilog2_ge_iff [OF rpos] by simp
    define E where "E = exponente r"
    have le: "E \<le> e" using assms(1) \<open>\<not> e + 53 \<le> ilog2 \<bar>r\<bar>\<close> by (simp add: E_def exponente_def)
    define k where "k = nat (e - E)"
    have e: "e = E + int k" using le by (simp add: k_def)
    have "2 powi e = (2::rat) powi E * 2 ^ k"
      using two_powi_split [of E k] by (simp add: e [symmetric])
    then have "r / 2 powi E = of_int m * 2 ^ k" by (simp add: r_def)
    also have "\<dots> = of_int (m * 2 ^ k)" by simp
    finally have "r / 2 powi exponente r = of_int (m * 2 ^ k)" by (simp only: E_def)
    from rnd_entero [OF this] show ?thesis by (simp add: r_def)
  qed
qed

lemma rnd_idem: "rnd (rnd x) = rnd x"
proof (cases "x = 0")
  case True
  then show ?thesis by simp
next
  case False
  show ?thesis
    using rnd_representable [OF exponente_ge [of x] rnd_mantisa [OF False]]
    by (simp add: rnd_eq [OF False])
qed

lemma rnd_error:
  assumes "x \<noteq> 0"
  shows "\<bar>rnd x - x\<bar> \<le> 2 powi exponente x / 2"
proof -
  let ?e = "exponente x"
  let ?m = "round_half_even (x / 2 powi ?e)"
  have "rnd x - x = (of_int ?m - x / 2 powi ?e) * 2 powi ?e"
    by (simp add: rnd_eq [OF assms] algebra_simps)
  then have "\<bar>rnd x - x\<bar> = \<bar>of_int ?m - x / 2 powi ?e\<bar> * 2 powi ?e"
    by (simp add: abs_mult)
  also have "\<dots> \<le> 1 / 2 * 2 powi ?e"
    using rhe_bounds [of "x / 2 powi ?e"] by (intro mult_right_mono) auto
  finally show ?thesis by simp
qed

lemma rnd_error_relativo:
  assumes "2 powi (- 1022) \<le> x"
  shows "\<bar>rnd x - x\<bar> \<le> x / 2 ^ 53"
proof -
  have pos: "0 < x" using assms by (meson less_le_trans two_powi_pos)
  then have x0: "x \<noteq> 0" by simp
  have "- 1022 \<le> ilog2 x" using ilog2_ge_iff [OF pos] assms by simp
  then have e: "exponente x = ilog2 x - 52" using pos by (simp add: exponente_def)
  have "2 powi ilog2 x = (2::rat) powi exponente x * 2 ^ 52"
    using two_powi_split [of "exponente x" 52] by (simp add: e)
  then have "2 powi exponente x / 2 = (2::rat) powi ilog2 x / 2 ^ 53" by simp
  also have "\<dots> \<le> x / 2 ^ 53" using ilog2_bounds [OF pos] by (simp add: divide_right_mono)
  finally show ?thesis using rnd_error [OF x0] by linarith
qed


subsection \<open>Sign and range\<close>

lemma rhe_neg: "round_half_even (- x) = - round_half_even x"
proof (cases "x = of_int \<lfloor>x\<rfloor>")
  case True
  then obtain n where x: "x = of_int n" ..
  have "round_half_even (of_int (- n)) = - n" by (rule rhe_of_int)
  then show ?thesis by (simp add: x)
next
  case False
  define n where "n = \<lfloor>x\<rfloor>"
  define d where "d = x - of_int n"
  have d0: "0 \<le> d" and d1: "d < 1" by (simp_all add: d_def n_def) linarith
  have dn: "d \<noteq> 0" using False by (simp add: d_def n_def)
  have fl: "\<lfloor>- x\<rfloor> = - n - 1"
  proof (rule floor_unique)
    show "of_int (- n - 1) \<le> - x" using d1 by (simp add: d_def)
    show "- x < of_int (- n - 1) + 1" using d0 dn by (simp add: d_def)
  qed
  have dd: "- x - of_int (- n - 1) = 1 - d" by (simp add: d_def)
  have a: "round_half_even x =
      (if d < 1 / 2 then n else if 1 / 2 < d then n + 1 else if even n then n else n + 1)"
    by (simp add: round_half_even_def Let_def n_def d_def)
  have b: "round_half_even (- x) =
      (if 1 - d < 1 / 2 then - n - 1 else if 1 / 2 < 1 - d then - n
       else if even (- n - 1) then - n - 1 else - n)"
    unfolding round_half_even_def Let_def fl dd by simp
  consider "d < 1 / 2" | "1 / 2 < d" | "d = 1 / 2" by linarith
  then show ?thesis
  proof cases
    case 1
    then show ?thesis by (simp add: a b)
  next
    case 2
    then show ?thesis by (simp add: a b)
  next
    case 3
    then show ?thesis by (simp add: a b)
  qed
qed

lemma exponente_neg [simp]: "exponente (- x) = exponente x"
  by (simp add: exponente_def)

lemma rnd_neg: "rnd (- x) = - rnd x"
proof (cases "x = 0")
  case True
  then show ?thesis by simp
next
  case False
  then have "- x \<noteq> 0" by simp
  from rnd_eq [OF this] rnd_eq [OF False] show ?thesis
    by (simp add: rhe_neg)
qed

lemma rnd_mono_gen:
  assumes "x \<le> y"
  shows "rnd x \<le> rnd y"
proof (cases "0 \<le> x")
  case True
  then show ?thesis using assms by (rule rnd_mono)
next
  case False
  then have x: "0 \<le> - x" by simp
  show ?thesis
  proof (cases "0 \<le> y")
    case True
    from rnd_nonneg [OF x] rnd_nonneg [OF True] show ?thesis by (simp add: rnd_neg)
  next
    case False
    then have "0 \<le> - y" and "- y \<le> - x" using assms by simp_all
    from rnd_mono [OF this] show ?thesis by (simp add: rnd_neg)
  qed
qed

lemma rnd_potencia: "k \<le> 1024 \<Longrightarrow> rnd (2 ^ k) = 2 ^ k"
proof -
  assume "k \<le> 1024"
  have "rnd (of_int (2 ^ k)) = of_int (2 ^ k)"
  proof (cases "k \<le> 53")
    case True
    then have "(2::int) ^ k \<le> 2 ^ 53" by (intro power_increasing) simp_all
    moreover have "\<bar>(2::int) ^ k\<bar> = 2 ^ k" by (rule abs_of_nonneg) simp
    ultimately have "\<bar>(2::int) ^ k\<bar> \<le> 2 ^ 53" by (simp only:)
    from rnd_representable [of 0 "2 ^ k", OF _ this] show ?thesis by simp
  next
    case False
    then have k: "k = 53 + (k - 53)" by simp
    have "\<bar>(2::int) ^ 53\<bar> \<le> 2 ^ 53" by simp
    from rnd_representable [of "int (k - 53)" "2 ^ 53", OF _ this]
    have "rnd (2 ^ 53 * 2 ^ (k - 53)) = 2 ^ 53 * 2 ^ (k - 53)" by simp
    moreover have "(2::rat) ^ k = 2 ^ 53 * 2 ^ (k - 53)"
      by (subst k) (simp only: power_add)
    ultimately show ?thesis by simp
  qed
  then show ?thesis by simp
qed

lemma fl_finito: "\<bar>x\<bar> \<le> 2 ^ 1023 \<Longrightarrow> fl x = Fin (rnd x)"
proof -
  assume h: "\<bar>x\<bar> \<le> 2 ^ 1023"
  then have "x \<le> 2 ^ 1023" and "- (2 ^ 1023) \<le> x" by (simp_all add: abs_le_iff)
  from rnd_mono_gen [OF this(1)] rnd_mono_gen [OF this(2)]
  have "rnd x \<le> 2 ^ 1023" and "- (2 ^ 1023) \<le> rnd x"
    using rnd_potencia [of 1023] by (simp_all add: rnd_neg)
  moreover have "(2::rat) ^ 1023 < 2 ^ 1024" by simp
  ultimately show ?thesis by (simp add: fl_def)
qed

lemma float_of_int_en_rango:
  assumes "\<bar>n\<bar> \<le> 2 ^ 1023"
  shows "float_of_int n = Inr (Fin (rnd (of_int n)))"
proof -
  have "\<bar>(of_int n :: rat)\<bar> = of_int \<bar>n\<bar>" by simp
  also have "\<dots> \<le> of_int (2 ^ 1023)" using assms by (simp only: of_int_le_iff)
  finally have "\<bar>(of_int n :: rat)\<bar> \<le> 2 ^ 1023" by simp
  from fl_finito [OF this] show ?thesis by (simp add: float_of_int_def)
qed

lemma float_of_int_desborda:
  assumes "2 ^ 1024 \<le> n"
  shows "float_of_int n = Inl OverflowError"
proof -
  have "(of_int (2 ^ 1024) :: rat) \<le> of_int n" using assms by (simp only: of_int_le_iff)
  then have "(2::rat) ^ 1024 \<le> of_int n" by simp
  from rnd_mono_gen [OF this] have "2 ^ 1024 \<le> rnd (of_int n)"
    using rnd_potencia [of 1024] by simp
  then show ?thesis by (simp add: float_of_int_def fl_def)
qed

section \<open>Evaluation on numerals\<close>

text \<open>Rules with which the simplifier computes the definitions above on numerals.\<close>

lemma bitlen_1 [simp]: "bitlen 1 = 1"
  by (subst compute_bitlen) simp

lemma bitlen_Bit0 [simp]: "bitlen (numeral (Num.Bit0 n)) = bitlen (numeral n) + 1"
  by (subst compute_bitlen) simp

lemma bitlen_Bit1 [simp]: "bitlen (numeral (Num.Bit1 n)) = bitlen (numeral n) + 1"
  by (subst compute_bitlen) simp

lemma bitlen_One [simp]: "bitlen (numeral Num.One) = 1"
  by simp

lemma floor_rat_numeral [simp]:
  "\<lfloor>(numeral a :: rat) / numeral b\<rfloor> = numeral a div numeral b"
  "\<lfloor>- ((numeral a :: rat) / numeral b)\<rfloor> = - numeral a div numeral b"
  "\<lfloor>(1 :: rat) / numeral b\<rfloor> = 1 div numeral b"
  "\<lfloor>- ((1 :: rat) / numeral b)\<rfloor> = - 1 div numeral b"
  using floor_divide_of_int_eq [of "numeral a" "numeral b", where ?'a = rat]
    floor_divide_of_int_eq [of "- numeral a" "numeral b", where ?'a = rat]
    floor_divide_of_int_eq [of 1 "numeral b", where ?'a = rat]
    floor_divide_of_int_eq [of "- 1" "numeral b", where ?'a = rat]
  by simp_all

lemma ceiling_rat_numeral [simp]:
  "\<lceil>(numeral a :: rat) / numeral b\<rceil> = - (- numeral a div numeral b)"
  using floor_divide_of_int_eq [of "- numeral a" "numeral b", where ?'a = rat]
  by (simp add: ceiling_def)

lemma digitos_numeral [simp]:
  "digitos (numeral k) =
     (if numeral k < (10::nat) then [''0123456789'' ! numeral k]
      else digitos (numeral k div 10) @ [''0123456789'' ! (numeral k mod 10)])"
  "digitos 0 = ''0''"
  "digitos 1 = ''1''"
  "digitos (Suc 0) = ''1''"
  by (subst digitos.simps, simp)+

lemma replicate_numeral [simp]: "replicate (numeral k) x = x # replicate (numeral k - 1) x"
  by (simp add: numeral_eq_Suc)

lemmas evaluar = ilog2_def exponente_def rnd_def round_half_even_def fl_def Let_def
  float_of_int_def py_float_op_def importe_iva_def importe_item_def fsub_def
  str_int_def zfill_def

section \<open>Creation: validation, failure and success\<close>

text \<open>The registry holds the \<open>int\<close>s 1 to 5; a float of that value and \<open>true\<close> are equal to one.\<close>

lemma en_lista_puntos_venta:
  "en_lista pv puntos_venta \<longleftrightarrow>
     pv \<in> {PvInt 1, PvInt 2, PvInt 3, PvInt 4, PvInt 5,
           PvFloat 1, PvFloat 2, PvFloat 3, PvFloat 4, PvFloat 5, PvBool True}"
  by (cases pv) (auto simp: en_lista_def puntos_venta_def)

lemma sumar_dias_en_rango:
  "vencimiento_en_rango env \<Longrightarrow> sumar_dias (ahora env) 10 = Inr (ahora env + 10 * 86400000000)"
  by (simp add: vencimiento_en_rango_def sumar_dias_def Let_def)

lemma sumar_dias_error: "sumar_dias fecha dias = Inl e \<Longrightarrow> e = OverflowError"
  by (auto simp: sumar_dias_def Let_def split: if_splits)

lemma sumar_dias_valor: "sumar_dias fecha dias = Inr v \<Longrightarrow> v = fecha + dias * 86400000000"
  by (auto simp: sumar_dias_def Let_def split: if_splits)

text \<open>
  Every run of the creation handler either answers with an error and leaves the database
  as it was; or passes the three checks, computes the totals, takes the next number of
  the series and fails on the expiry date, leaving the counter moved; or does all that
  and appends one invoice.
\<close>

lemma crear_factura_resultado:
  "(\<exists>m c. c \<noteq> 201 \<and> crear_factura env data s = ((CuerpoError m, c), s)) \<or>
   (\<exists>tp pv its tots n.
      sol_tipo data = Some tp \<and> (tp = ''A'' \<or> tp = ''B'') \<and>
      sol_puntoVenta data = Some pv \<and> en_lista pv puntos_venta \<and>
      sol_items data = Some its \<and> its \<noteq> [] \<and>
      calcular_totales its tp = Inr tots \<and> contadores s tp = Some n \<and>
      sumar_dias (ahora env) 10 = Inl OverflowError \<and>
      crear_factura env data s =
        ((CuerpoError (ErrorAlProcesar OverflowError), 500),
         s\<lparr>contadores := (contadores s)(tp \<mapsto> n + 1)\<rparr>)) \<or>
   (\<exists>tp pv its tots n.
      sol_tipo data = Some tp \<and> (tp = ''A'' \<or> tp = ''B'') \<and>
      sol_puntoVenta data = Some pv \<and> en_lista pv puntos_venta \<and>
      sol_items data = Some its \<and> its \<noteq> [] \<and>
      calcular_totales its tp = Inr tots \<and> contadores s tp = Some n \<and>
      sumar_dias (ahora env) 10 = Inr (ahora env + 10 * 86400000000) \<and>
      (let f = \<lparr>subtotal = subtotal tots, iva = iva tots, total = total tots,
                 ident = length (facturas s) + 1, tipo = tp,
                 numero = zfill 5 (str_punto pv) @ ''-'' @ zfill 8 (str_int n),
                 puntoVenta = pv, cae = generar_cae env,
                 fechaEmision = ahora env,
                 fechaVencimientoCAE = ahora env + 10 * 86400000000,
                 cliente = sol_cliente data, items = its, estado = Autorizada\<rparr>
       in crear_factura env data s =
            ((FacturaAutorizada f, 201),
             s\<lparr>contadores := (contadores s)(tp \<mapsto> n + 1), facturas := facturas s @ [f]\<rparr>)))"
proof (cases "sumar_dias (ahora env) 10")
  case (Inl e)
  then have "sumar_dias (ahora env) 10 = Inl OverflowError"
    using sumar_dias_error by blast
  then show ?thesis
    unfolding crear_factura_def generar_numero_factura_def Let_def
    by (auto split: sum.splits option.splits)
next
  case (Inr v)
  then have "sumar_dias (ahora env) 10 = Inr (ahora env + 10 * 86400000000)"
    using sumar_dias_valor by blast
  then show ?thesis
    unfolding crear_factura_def generar_numero_factura_def Let_def
    by (auto split: sum.splits option.splits)
qed

lemma crear_factura_facturas:
  assumes "crear_factura env data s = (r, s')"
  shows "(\<forall>f. fst r \<noteq> FacturaAutorizada f) \<and> facturas s' = facturas s \<or>
         (\<exists>f. fst r = FacturaAutorizada f \<and> ident f = length (facturas s) + 1 \<and>
              facturas s' = facturas s @ [f])"
  using assms crear_factura_resultado [of env data s]
  by (auto simp: Let_def)

lemma crear_factura_ok:
  assumes "sol_tipo data = Some tp" and "tp = ''A'' \<or> tp = ''B''"
    and "sol_puntoVenta data = Some pv" and "en_lista pv puntos_venta"
    and "sol_items data = Some its" and "its \<noteq> []"
    and "calcular_totales its tp = Inr tots" and "contadores s tp = Some n"
    and "vencimiento_en_rango env"
  shows "crear_factura env data s =
     ((FacturaAutorizada
         \<lparr>subtotal = subtotal tots, iva = iva tots, total = total tots,
          ident = length (facturas s) + 1, tipo = tp,
          numero = zfill 5 (str_punto pv) @ ''-'' @ zfill 8 (str_int n),
          puntoVenta = pv, cae = generar_cae env,
          fechaEmision = ahora env,
          fechaVencimientoCAE = ahora env + 10 * 86400000000,
          cliente = sol_cliente data, items = its, estado = Autorizada\<rparr>, 201),
      s\<lparr>contadores := (contadores s)(tp \<mapsto> n + 1),
        facturas := facturas s @
          [\<lparr>subtotal = subtotal tots, iva = iva tots, total = total tots,
            ident = length (facturas s) + 1, tipo = tp,
            numero = zfill 5 (str_punto pv) @ ''-'' @ zfill 8 (str_int n),
            puntoVenta = pv, cae = generar_cae env,
            fechaEmision = ahora env,
            fechaVencimientoCAE = ahora env + 10 * 86400000000,
            cliente = sol_cliente data, items = its, estado = Autorizada\<rparr>]\<rparr>)"
  using assms(1-8) sumar_dias_en_rango [OF assms(9)]
  unfolding crear_factura_def generar_numero_factura_def Let_def
  by auto

lemma crear_factura_vencimiento:
  assumes "sol_tipo data = Some tp" and "tp = ''A'' \<or> tp = ''B''"
    and "sol_puntoVenta data = Some pv" and "en_lista pv puntos_venta"
    and "sol_items data = Some its" and "its \<noteq> []"
    and "calcular_totales its tp = Inr tots" and "contadores s tp = Some n"
    and "fecha_max < ahora env + 10 * 86400000000"
  shows "crear_factura env data s =
     ((CuerpoError (ErrorAlProcesar OverflowError), 500),
      s\<lparr>contadores := (contadores s)(tp \<mapsto> n + 1)\<rparr>)"
  using assms
  unfolding crear_factura_def generar_numero_factura_def sumar_dias_def Let_def
  by auto

lemma crear_factura_exito:
  assumes "crear_factura env data s = (r, s')" and "fst r = FacturaAutorizada f"
  shows "\<exists>pv its tots n.
      sol_tipo data = Some (tipo f) \<and> (tipo f = ''A'' \<or> tipo f = ''B'') \<and>
      sol_puntoVenta data = Some pv \<and> en_lista pv puntos_venta \<and>
      sol_items data = Some its \<and> its \<noteq> [] \<and>
      calcular_totales its (tipo f) = Inr tots \<and> contadores s (tipo f) = Some n \<and>
      subtotal f = subtotal tots \<and> iva f = iva tots \<and> total f = total tots \<and>
      ident f = length (facturas s) + 1 \<and>
      numero f = zfill 5 (str_punto pv) @ ''-'' @ zfill 8 (str_int n) \<and>
      puntoVenta f = pv \<and> items f = its \<and> snd r = 201 \<and>
      s' = s\<lparr>contadores := (contadores s)(tipo f \<mapsto> n + 1), facturas := facturas s @ [f]\<rparr>"
  using assms crear_factura_resultado [of env data s]
  by (auto simp: Let_def)

lemma crear_factura_sin_exito:
  assumes "crear_factura env data s = (r, s')" and "\<forall>f. fst r \<noteq> FacturaAutorizada f"
  shows "(\<exists>m. fst r = CuerpoError m) \<and> snd r \<noteq> 201 \<and> facturas s' = facturas s \<and>
         (s' = s \<or>
          (\<exists>tp n. sol_tipo data = Some tp \<and> (tp = ''A'' \<or> tp = ''B'') \<and>
                  contadores s tp = Some n \<and>
                  sumar_dias (ahora env) 10 = Inl OverflowError \<and>
                  r = (CuerpoError (ErrorAlProcesar OverflowError), 500) \<and>
                  s' = s\<lparr>contadores := (contadores s)(tp \<mapsto> n + 1)\<rparr>))"
  using assms crear_factura_resultado [of env data s]
  by (auto simp: Let_def)

lemma ejecutar_Cons_snd:
  "snd (ejecutar ((env, data) # reqs) s) = snd (ejecutar reqs (snd (crear_factura env data s)))"
  by (simp split: prod.splits)

lemma ejecutar_Cons_fst:
  "fst (ejecutar ((env, data) # reqs) s) =
     fst (crear_factura env data s) # fst (ejecutar reqs (snd (crear_factura env data s)))"
  by (simp split: prod.splits)



section \<open>Two worked runs\<close>

text \<open>The example requests, served from the empty database, give the example invoices.\<close>

lemma totales_ejemplo_1:
  "calcular_totales [\<lparr>cantidad = PyInt 2, precioUnitario = PyInt 100\<rparr>] ''A'' =
   Inr \<lparr>subtotal = PyInt 200, iva = PyFloat (Fin 42), total = PyFloat (Fin 242)\<rparr>"
  by (simp add: calcular_totales_def evaluar)

lemma totales_ejemplo_2:
  "calcular_totales [\<lparr>cantidad = PyInt 1, precioUnitario = PyInt 121\<rparr>] ''B'' =
   Inr \<lparr>subtotal = PyFloat (fl (14641 / 100)), iva = PyFloat (Fin 0),
        total = PyFloat (fl (14641 / 100))\<rparr>"
  by (simp add: calcular_totales_def evaluar)

lemma totales_ejemplo_3:
  "calcular_totales [\<lparr>cantidad = PyInt 3, precioUnitario = PyFloat (Fin (1 / 2))\<rparr>] ''A'' =
   Inr \<lparr>subtotal = PyFloat (Fin (3 / 2)), iva = PyFloat (fl (8 / 25)),
        total = PyFloat (fl (181 / 100))\<rparr>"
  by (simp add: calcular_totales_def evaluar)

lemma textos_ejemplo:
  "zfill 5 (str_int 1) = ''00001''"
  "zfill 5 (str_int 2 @ ''.0'') = ''002.0''"
  "zfill 5 (str_int 5) = ''00005''"
  "zfill 5 ''True'' = ''0True''"
  "zfill 8 (str_int 1) = ''00000001''"
  "zfill 8 (str_int 2) = ''00000002''"
  "str_int 12345678901234 = ''12345678901234''"
  "str_int 43210987654321 = ''43210987654321''"
  "str_int 55555555555555 = ''55555555555555''"
  by (simp_all add: evaluar)

lemma relojes_ejemplo:
  "vencimiento_en_rango \<lparr>ahora = 0, aleatorio = r\<rparr>"
  "vencimiento_en_rango \<lparr>ahora = 1000000, aleatorio = r\<rparr>"
  "vencimiento_en_rango \<lparr>ahora = 2000000, aleatorio = r\<rparr>"
  "fecha_max < ahora \<lparr>ahora = 315537033600000000, aleatorio = r\<rparr> + 10 * 86400000000"
  by (simp_all add: vencimiento_en_rango_def fecha_max_def)

lemma ejecutar_ejemplo:
  "ejecutar solicitudes_ejemplo bd_inicial =
     ([(FacturaAutorizada factura_ejemplo, 201), (FacturaAutorizada factura_ejemplo_2, 201),
       (FacturaAutorizada factura_ejemplo_3, 201)], bd_ejemplo)"
proof -
  let ?e1 = "\<lparr>ahora = 0, aleatorio = 12345678901234\<rparr>"
  let ?d1 = "\<lparr>sol_tipo = Some ''A'', sol_puntoVenta = Some (PvInt 1), sol_cliente = (),
        sol_items = Some [\<lparr>cantidad = PyInt 2, precioUnitario = PyInt 100\<rparr>]\<rparr>"
  let ?e2 = "\<lparr>ahora = 1000000, aleatorio = 43210987654321\<rparr>"
  let ?d2 = "\<lparr>sol_tipo = Some ''B'', sol_puntoVenta = Some (PvFloat 2), sol_cliente = (),
        sol_items = Some [\<lparr>cantidad = PyInt 1, precioUnitario = PyInt 121\<rparr>]\<rparr>"
  let ?e3 = "\<lparr>ahora = 2000000, aleatorio = 55555555555555\<rparr>"
  let ?d3 = "\<lparr>sol_tipo = Some ''A'', sol_puntoVenta = Some (PvInt 5), sol_cliente = (),
        sol_items = Some [\<lparr>cantidad = PyInt 3, precioUnitario = PyFloat (Fin (1 / 2))\<rparr>]\<rparr>"
  let ?s1 = "\<lparr>facturas = [factura_ejemplo], contadores = [''A'' \<mapsto> 2, ''B'' \<mapsto> 1]\<rparr>"
  let ?s2 = "\<lparr>facturas = [factura_ejemplo, factura_ejemplo_2],
             contadores = [''A'' \<mapsto> 2, ''B'' \<mapsto> 2]\<rparr>"
  have 1: "crear_factura ?e1 ?d1 bd_inicial = ((FacturaAutorizada factura_ejemplo, 201), ?s1)"
    by (subst crear_factura_ok [where tp = "''A''" and pv = "PvInt 1" and n = 1,
            OF _ _ _ _ _ _ totales_ejemplo_1 _ relojes_ejemplo(1)])
       (auto simp: en_lista_puntos_venta bd_inicial_def factura_ejemplo_def generar_cae_def
          textos_ejemplo fun_eq_iff)
  have 2: "crear_factura ?e2 ?d2 ?s1 = ((FacturaAutorizada factura_ejemplo_2, 201), ?s2)"
    by (subst crear_factura_ok [where tp = "''B''" and pv = "PvFloat 2" and n = 1,
            OF _ _ _ _ _ _ totales_ejemplo_2 _ relojes_ejemplo(2)])
       (auto simp: en_lista_puntos_venta factura_ejemplo_2_def generar_cae_def
          textos_ejemplo fun_eq_iff)
  have 3: "crear_factura ?e3 ?d3 ?s2 = ((FacturaAutorizada factura_ejemplo_3, 201), bd_ejemplo)"
    by (subst crear_factura_ok [where tp = "''A''" and pv = "PvInt 5" and n = 2,
            OF _ _ _ _ _ _ totales_ejemplo_3 _ relojes_ejemplo(3)])
       (auto simp: en_lista_puntos_venta factura_ejemplo_3_def generar_cae_def bd_ejemplo_def
          textos_ejemplo fun_eq_iff)
  show ?thesis by (simp add: solicitudes_ejemplo_def 1 2 3)
qed

text \<open>
  The second run: the first request fails on the expiry date after taking number 1 of
  series A; the second creates the invoice of identifier 1 and number 2.
\<close>

lemma crear_factura_fallo_ejemplo:
  "crear_factura \<lparr>ahora = 315537033600000000, aleatorio = 12345678901234\<rparr>
       \<lparr>sol_tipo = Some ''A'', sol_puntoVenta = Some (PvInt 1), sol_cliente = (),
        sol_items = Some [\<lparr>cantidad = PyInt 2, precioUnitario = PyInt 100\<rparr>]\<rparr>
       (bd_inicial :: unit bd) =
     ((CuerpoError (ErrorAlProcesar OverflowError), 500),
      \<lparr>facturas = [], contadores = [''A'' \<mapsto> 2, ''B'' \<mapsto> 1]\<rparr>)"
  by (subst crear_factura_vencimiento [where tp = "''A''" and pv = "PvInt 1" and n = 1,
          OF _ _ _ _ _ _ totales_ejemplo_1 _ relojes_ejemplo(4)])
     (auto simp: en_lista_puntos_venta bd_inicial_def fun_eq_iff)

lemma ejecutar_con_fallo:
  "ejecutar solicitudes_con_fallo bd_inicial =
     ([(CuerpoError (ErrorAlProcesar OverflowError), 500),
       (FacturaAutorizada factura_tras_fallo, 201)],
      \<lparr>facturas = [factura_tras_fallo], contadores = [''A'' \<mapsto> 3, ''B'' \<mapsto> 1]\<rparr>)"
proof -
  let ?e2 = "\<lparr>ahora = 0, aleatorio = 12345678901234\<rparr>"
  let ?d2 = "\<lparr>sol_tipo = Some ''A'', sol_puntoVenta = Some (PvBool True), sol_cliente = (),
        sol_items = Some [\<lparr>cantidad = PyInt 2, precioUnitario = PyInt 100\<rparr>]\<rparr>"
  let ?s1 = "\<lparr>facturas = [], contadores = [''A'' \<mapsto> 2, ''B'' \<mapsto> 1]\<rparr> :: unit bd"
  have 2: "crear_factura ?e2 ?d2 ?s1 =
      ((FacturaAutorizada factura_tras_fallo, 201),
       \<lparr>facturas = [factura_tras_fallo], contadores = [''A'' \<mapsto> 3, ''B'' \<mapsto> 1]\<rparr>)"
    by (subst crear_factura_ok [where tp = "''A''" and pv = "PvBool True" and n = 2,
            OF _ _ _ _ _ _ totales_ejemplo_1 _ relojes_ejemplo(1)])
       (auto simp: en_lista_puntos_venta factura_tras_fallo_def generar_cae_def
          textos_ejemplo fun_eq_iff)
  show ?thesis by (simp add: solicitudes_con_fallo_def crear_factura_fallo_ejemplo 2)
qed

section \<open>Failed requests\<close>








lemma crear_factura_falla:
  assumes "sol_tipo data = Some tp" and "tp = ''A'' \<or> tp = ''B''"
    and "sol_puntoVenta data = Some pv" and "en_lista pv puntos_venta"
    and "sol_items data = Some its" and "its \<noteq> []"
    and "calcular_totales its tp = Inl e"
  shows "crear_factura env data s = ((CuerpoError (ErrorAlProcesar e), 500), s)"
  using assms by (auto simp: crear_factura_def)

lemma totales_desbordados:
  "calcular_totales [\<lparr>cantidad = PyInt (2 ^ 1024), precioUnitario = PyInt 1\<rparr>] ''A'' =
     Inl OverflowError"
  by (simp add: calcular_totales_def importe_item_def importe_iva_def py_float_op_def
        float_of_int_desborda)

lemma crear_factura_desbordada:
  "crear_factura \<lparr>ahora = 0, aleatorio = 12345678901234\<rparr>
     \<lparr>sol_tipo = Some ''A'', sol_puntoVenta = Some (PvInt 1), sol_cliente = (),
      sol_items = Some [\<lparr>cantidad = PyInt (2 ^ 1024), precioUnitario = PyInt 1\<rparr>]\<rparr>
     (bd_inicial :: unit bd) =
   ((CuerpoError (ErrorAlProcesar OverflowError), 500), bd_inicial)"
  by (rule crear_factura_falla [where tp = "''A''" and pv = "PvInt 1", OF _ _ _ _ _ _ totales_desbordados])
     (simp_all add: en_lista_puntos_venta)

text \<open>
  C5, as amended. A creation request that does not answer 201 answers with an error,
  appends no invoice and takes no identifier. It leaves the counters as they were too
  when it is refused by a check (code 400), when the totals raise, and whenever the
  clock is at least ten days before the last date: then the database is exactly as it
  was. The one failure that is not all-or-nothing is the expiry date out of range: it is
  raised after the number was taken, the answer is 500, and the counter of the series
  stays one higher. The answer is an error exactly when the code is not 201.
\<close>

theorem crear_factura_todo_o_nada:
  assumes "crear_factura env data s = ((body, code), s')"
  shows "(code \<noteq> 201 \<longrightarrow> (\<exists>m. body = CuerpoError m) \<and> facturas s' = facturas s) \<and>
         (code = 400 \<longrightarrow> s' = s) \<and>
         (code \<noteq> 201 \<and> vencimiento_en_rango env \<longrightarrow> s' = s) \<and>
         (\<forall>tp its e. sol_tipo data = Some tp \<and> sol_items data = Some its \<and>
              calcular_totales its tp = Inl e \<longrightarrow> code \<noteq> 201 \<and> s' = s) \<and>
         (code \<noteq> 201 \<and> s' \<noteq> s \<longrightarrow>
            code = 500 \<and> body = CuerpoError (ErrorAlProcesar OverflowError) \<and>
            sumar_dias (ahora env) 10 = Inl OverflowError \<and>
            (\<exists>tp n. sol_tipo data = Some tp \<and> contadores s tp = Some n \<and>
                    s' = s\<lparr>contadores := (contadores s)(tp \<mapsto> n + 1)\<rparr>)) \<and>
         ((\<forall>f. body \<noteq> FacturaAutorizada f) \<longrightarrow> code \<noteq> 201)"
proof -
  from crear_factura_resultado [of env data s]
  consider
    (error) m c where "c \<noteq> 201" "crear_factura env data s = ((CuerpoError m, c), s)"
  | (vencimiento) tp its tots n where
      "sol_tipo data = Some tp" "sol_items data = Some its"
      "calcular_totales its tp = Inr tots" "contadores s tp = Some n"
      "sumar_dias (ahora env) 10 = Inl OverflowError"
      "crear_factura env data s =
        ((CuerpoError (ErrorAlProcesar OverflowError), 500),
         s\<lparr>contadores := (contadores s)(tp \<mapsto> n + 1)\<rparr>)"
  | (exito) tp its tots f s'' where
      "sol_tipo data = Some tp" "sol_items data = Some its"
      "calcular_totales its tp = Inr tots"
      "crear_factura env data s = ((FacturaAutorizada f, 201), s'')"
    by (auto simp: Let_def)
  then show ?thesis
  proof cases
    case error
    with assms show ?thesis by auto
  next
    case vencimiento
    with assms sumar_dias_en_rango [of env] show ?thesis by auto
  next
    case exito
    with assms show ?thesis by auto
  qed
qed

theorem crear_factura_todo_o_nada_witness:
  "snd (crear_factura \<lparr>ahora = 0, aleatorio = 10000000000000\<rparr>
          \<lparr>sol_tipo = Some ''C'', sol_puntoVenta = Some (PvInt 1), sol_cliente = (),
           sol_items = Some [\<lparr>cantidad = PyInt 2, precioUnitario = PyInt 100\<rparr>]\<rparr>
          (bd_inicial :: unit bd)) = bd_inicial \<and>
   snd (crear_factura \<lparr>ahora = 0, aleatorio = 12345678901234\<rparr>
          \<lparr>sol_tipo = Some ''A'', sol_puntoVenta = Some (PvInt 1), sol_cliente = (),
           sol_items = Some [\<lparr>cantidad = PyInt (2 ^ 1024), precioUnitario = PyInt 1\<rparr>]\<rparr>
          (bd_inicial :: unit bd)) = bd_inicial \<and>
   facturas (snd (crear_factura \<lparr>ahora = 315537033600000000, aleatorio = 12345678901234\<rparr>
          \<lparr>sol_tipo = Some ''A'', sol_puntoVenta = Some (PvInt 1), sol_cliente = (),
           sol_items = Some [\<lparr>cantidad = PyInt 2, precioUnitario = PyInt 100\<rparr>]\<rparr>
          (bd_inicial :: unit bd))) = []"
proof -
  let ?e1 = "\<lparr>ahora = 0, aleatorio = 10000000000000\<rparr>"
  let ?d1 = "\<lparr>sol_tipo = Some ''C'', sol_puntoVenta = Some (PvInt 1), sol_cliente = (),
      sol_items = Some [\<lparr>cantidad = PyInt 2, precioUnitario = PyInt 100\<rparr>]\<rparr>"
  let ?e2 = "\<lparr>ahora = 0, aleatorio = 12345678901234\<rparr>"
  let ?d2 = "\<lparr>sol_tipo = Some ''A'', sol_puntoVenta = Some (PvInt 1), sol_cliente = (),
      sol_items = Some [\<lparr>cantidad = PyInt (2 ^ 1024), precioUnitario = PyInt 1\<rparr>]\<rparr>"
  let ?e3 = "\<lparr>ahora = 315537033600000000, aleatorio = 12345678901234\<rparr>"
  let ?d3 = "\<lparr>sol_tipo = Some ''A'', sol_puntoVenta = Some (PvInt 1), sol_cliente = (),
      sol_items = Some [\<lparr>cantidad = PyInt 2, precioUnitario = PyInt 100\<rparr>]\<rparr>"
  let ?s = "bd_inicial :: unit bd"
  obtain b1 c1 s1 where r1: "crear_factura ?e1 ?d1 ?s = ((b1, c1), s1)" by (metis surj_pair)
  have "c1 = 400" using r1 by (simp add: crear_factura_def)
  with crear_factura_todo_o_nada [OF r1] have 1: "s1 = ?s" by simp
  obtain b2 c2 s2 where r2: "crear_factura ?e2 ?d2 ?s = ((b2, c2), s2)" by (metis surj_pair)
  have "c2 = 500" using r2 by (simp only: crear_factura_desbordada prod.inject)
  with crear_factura_todo_o_nada [OF r2] relojes_ejemplo(1) [of 12345678901234]
  have 2: "s2 = ?s" by simp
  obtain b3 c3 s3 where r3: "crear_factura ?e3 ?d3 ?s = ((b3, c3), s3)" by (metis surj_pair)
  have "c3 = 500" using r3 by (simp only: crear_factura_fallo_ejemplo prod.inject)
  with crear_factura_todo_o_nada [OF r3] have 3: "facturas s3 = []"
    by (simp add: bd_inicial_def)
  from r1 r2 r3 1 2 3 show ?thesis by simp
qed

text \<open>
  The claim as stated fails when the clock reads 22 December 9999, 00:00:00: a request of
  series A from point of sale 1 with one item is answered 500, no invoice is stored, and
  the counter of series A, which was 1, is left at 2.
\<close>

theorem crear_factura_todo_o_nada_counterexample:
  "fst (crear_factura \<lparr>ahora = 315537033600000000, aleatorio = 12345678901234\<rparr>
          \<lparr>sol_tipo = Some ''A'', sol_puntoVenta = Some (PvInt 1), sol_cliente = (),
           sol_items = Some [\<lparr>cantidad = PyInt 2, precioUnitario = PyInt 100\<rparr>]\<rparr>
          (bd_inicial :: unit bd)) = (CuerpoError (ErrorAlProcesar OverflowError), 500) \<and>
   contadores (snd (crear_factura \<lparr>ahora = 315537033600000000, aleatorio = 12345678901234\<rparr>
          \<lparr>sol_tipo = Some ''A'', sol_puntoVenta = Some (PvInt 1), sol_cliente = (),
           sol_items = Some [\<lparr>cantidad = PyInt 2, precioUnitario = PyInt 100\<rparr>]\<rparr>
          (bd_inicial :: unit bd))) ''A'' = Some 2 \<and>
   contadores (bd_inicial :: unit bd) ''A'' = Some 1"
  unfolding crear_factura_fallo_ejemplo by (simp add: bd_inicial_def)

section \<open>Identifiers\<close>

lemma ejecutar_facturas:
  "facturas (snd (ejecutar reqs s)) = facturas s @ autorizadas (fst (ejecutar reqs s))"
proof (induction reqs arbitrary: s)
  case Nil
  then show ?case by simp
next
  case (Cons a reqs)
  obtain env data where a: "a = (env, data)" by (cases a)
  obtain r s' where c: "crear_factura env data s = (r, s')" by (cases "crear_factura env data s")
  obtain rs s'' where e: "ejecutar reqs s' = (rs, s'')" by (cases "ejecutar reqs s'")
  have ih: "facturas s'' = facturas s' @ autorizadas rs"
    using Cons.IH [of s'] e by simp
  from crear_factura_facturas [OF c] show ?case
  proof
    assume h: "(\<forall>f. fst r \<noteq> FacturaAutorizada f) \<and> facturas s' = facturas s"
    then obtain m code where "r = (CuerpoError m, code)"
      by (cases r; cases "fst r") auto
    with h ih a c e show ?thesis by simp
  next
    assume "\<exists>f. fst r = FacturaAutorizada f \<and> ident f = length (facturas s) + 1 \<and>
              facturas s' = facturas s @ [f]"
    then obtain f where f: "fst r = FacturaAutorizada f" "facturas s' = facturas s @ [f]" by blast
    then obtain code where "r = (FacturaAutorizada f, code)" by (cases r) auto
    with f ih a c e show ?thesis by simp
  qed
qed

lemma ejecutar_ids:
  "map ident (autorizadas (fst (ejecutar reqs s))) =
     [length (facturas s) + 1 ..<
      length (facturas s) + 1 + length (autorizadas (fst (ejecutar reqs s)))]"
proof (induction reqs arbitrary: s)
  case Nil
  then show ?case by simp
next
  case (Cons a reqs)
  obtain env data where a: "a = (env, data)" by (cases a)
  obtain r s' where c: "crear_factura env data s = (r, s')" by (cases "crear_factura env data s")
  obtain rs s'' where e: "ejecutar reqs s' = (rs, s'')" by (cases "ejecutar reqs s'")
  have ih: "map ident (autorizadas rs) =
     [length (facturas s') + 1 ..< length (facturas s') + 1 + length (autorizadas rs)]"
    using Cons.IH [of s'] e by simp
  from crear_factura_facturas [OF c] show ?case
  proof
    assume h: "(\<forall>f. fst r \<noteq> FacturaAutorizada f) \<and> facturas s' = facturas s"
    then obtain m code where "r = (CuerpoError m, code)"
      by (cases r; cases "fst r") auto
    with h ih a c e show ?thesis by simp
  next
    assume "\<exists>f. fst r = FacturaAutorizada f \<and> ident f = length (facturas s) + 1 \<and>
              facturas s' = facturas s @ [f]"
    then obtain f where f: "fst r = FacturaAutorizada f" "ident f = length (facturas s) + 1"
      "facturas s' = facturas s @ [f]" by blast
    then obtain code where r: "r = (FacturaAutorizada f, code)" by (cases r) auto
    have "[length (facturas s) + 1 ..<
             length (facturas s) + 1 + Suc (length (autorizadas rs))] =
          (length (facturas s) + 1) #
            [length (facturas s) + 2 ..< length (facturas s) + 2 + length (autorizadas rs)]"
      by (simp add: upt_rec)
    with f r ih a c e show ?thesis by simp
  qed
qed

text \<open>
  C6. Whatever the requests and the database they start from, the identifiers of the
  invoices created, in the order of creation, are the consecutive numbers that follow
  the number of invoices already stored: each is the count plus one, so each successful
  creation's identifier is one more than the last one's. From the empty database they
  are 1, 2, 3, ..., the stored invoices are exactly the created ones, and no identifier
  occurs twice.
\<close>

theorem ids_consecutivos:
  "map ident (autorizadas (fst (ejecutar reqs s))) =
     [length (facturas s) + 1 ..<
      length (facturas s) + 1 + length (autorizadas (fst (ejecutar reqs s)))] \<and>
   map ident (autorizadas (fst (ejecutar reqs (bd_inicial :: 'c bd)))) =
     [1 ..< 1 + length (autorizadas (fst (ejecutar reqs (bd_inicial :: 'c bd))))] \<and>
   facturas (snd (ejecutar reqs (bd_inicial :: 'c bd))) =
     autorizadas (fst (ejecutar reqs (bd_inicial :: 'c bd))) \<and>
   distinct (map ident (facturas (snd (ejecutar reqs (bd_inicial :: 'c bd)))))"
proof (intro conjI)
  show "map ident (autorizadas (fst (ejecutar reqs s))) =
     [length (facturas s) + 1 ..<
      length (facturas s) + 1 + length (autorizadas (fst (ejecutar reqs s)))]"
    by (rule ejecutar_ids)
  have i: "map ident (autorizadas (fst (ejecutar reqs (bd_inicial :: 'c bd)))) =
     [1 ..< 1 + length (autorizadas (fst (ejecutar reqs (bd_inicial :: 'c bd))))]"
    using ejecutar_ids [of reqs "bd_inicial :: 'c bd"] by (simp add: bd_inicial_def)
  then show "map ident (autorizadas (fst (ejecutar reqs (bd_inicial :: 'c bd)))) =
     [1 ..< 1 + length (autorizadas (fst (ejecutar reqs (bd_inicial :: 'c bd))))]" .
  show f: "facturas (snd (ejecutar reqs (bd_inicial :: 'c bd))) =
      autorizadas (fst (ejecutar reqs (bd_inicial :: 'c bd)))"
    using ejecutar_facturas [of reqs "bd_inicial :: 'c bd"] by (simp add: bd_inicial_def)
  from i f show "distinct (map ident (facturas (snd (ejecutar reqs (bd_inicial :: 'c bd)))))"
    by (metis distinct_upt)
qed

section \<open>Sequence numbers\<close>

lemma digitos_unidad: "n < 10 \<Longrightarrow> digitos n = [''0123456789'' ! n]"
  by (subst digitos.simps) simp

lemma valor_digito: "k < 10 \<Longrightarrow> of_char (''0123456789'' ! k) - 48 = (k::nat)"
proof -
  assume "k < 10"
  then have "k \<in> {0, 1, 2, 3, 4, 5, 6, 7, 8, 9}" by auto
  then show ?thesis by auto
qed

lemma valor_digitos_snoc: "valor_digitos (cs @ [c]) = 10 * valor_digitos cs + (of_char c - 48)"
  by (simp add: valor_digitos_def)

lemma valor_digitos_digitos: "valor_digitos (digitos n) = n"
proof (induction n rule: digitos.induct)
  case (1 n)
  show ?case
  proof (cases "n < 10")
    case True
    then have "digitos n = [''0123456789'' ! n]" by (rule digitos_unidad)
    then have "valor_digitos (digitos n) = of_char (''0123456789'' ! n) - 48"
      by (simp add: valor_digitos_def)
    with True show ?thesis by (simp only: valor_digito)
  next
    case False
    then have d: "digitos n = digitos (n div 10) @ [''0123456789'' ! (n mod 10)]"
      by (subst digitos.simps) simp
    have "valor_digitos (digitos n) = 10 * valor_digitos (digitos (n div 10)) + (of_char (''0123456789'' ! (n mod 10)) - 48)"
      by (simp only: d valor_digitos_snoc)
    also have "\<dots> = 10 * (n div 10) + n mod 10"
      using "1.IH" [OF False] valor_digito [of "n mod 10"] by simp
    finally show ?thesis by simp
  qed
qed

lemma valor_digitos_ceros: "valor_digitos (replicate k CHR ''0'' @ cs) = valor_digitos cs"
proof -
  have "foldl (\<lambda>acc c. 10 * acc + (of_char c - 48)) (0::nat) (replicate k CHR ''0'') = 0"
    by (induction k) simp_all
  then show ?thesis by (simp add: valor_digitos_def)
qed

lemma digitos_no_vacio: "digitos n \<noteq> []"
  by (subst digitos.simps) simp

lemma digito_no_signo: "k < 10 \<Longrightarrow> ''0123456789'' ! k \<noteq> CHR ''-'' \<and> ''0123456789'' ! k \<noteq> CHR ''+''"
proof -
  assume "k < 10"
  then have "k \<in> {0, 1, 2, 3, 4, 5, 6, 7, 8, 9}" by auto
  then show ?thesis by auto
qed

lemma digitos_sin_signo: "c \<in> set (digitos n) \<Longrightarrow> c \<noteq> CHR ''-'' \<and> c \<noteq> CHR ''+''"
proof (induction n rule: digitos.induct)
  case (1 n)
  show ?case
  proof (cases "n < 10")
    case True
    with "1.prems" have "c = ''0123456789'' ! n" by (simp add: digitos_unidad)
    with True show ?thesis using digito_no_signo [of n] by simp
  next
    case False
    then have d: "digitos n = digitos (n div 10) @ [''0123456789'' ! (n mod 10)]"
      by (subst digitos.simps) simp
    with "1.prems" have "c \<in> set (digitos (n div 10)) \<or> c = ''0123456789'' ! (n mod 10)"
      by auto
    then show ?thesis
    proof
      assume "c \<in> set (digitos (n div 10))"
      with "1.IH" [OF False] show ?thesis .
    next
      assume "c = ''0123456789'' ! (n mod 10)"
      then show ?thesis using digito_no_signo [of "n mod 10"] by simp
    qed
  qed
qed

lemma zfill_digitos: "zfill w (digitos n) = replicate (w - length (digitos n)) CHR ''0'' @ digitos n"
proof -
  obtain c rest where cr: "digitos n = c # rest"
    using digitos_no_vacio [of n] by (cases "digitos n") auto
  then have "c \<in> set (digitos n)" by simp
  then have "c \<noteq> CHR ''-'' \<and> c \<noteq> CHR ''+''" by (rule digitos_sin_signo)
  then show ?thesis by (simp add: zfill_def cr)
qed

lemma zfill_sin_guion: "c \<in> set (zfill w (digitos n)) \<Longrightarrow> c \<noteq> CHR ''-''"
  using digitos_sin_signo [of c n] by (auto simp: zfill_digitos)

lemma secuencia_numero:
  assumes "0 \<le> n"
  shows "secuencia (texto @ ''-'' @ zfill 8 (str_int n)) = nat n"
proof -
  have q: "str_int n = digitos (nat n)"
    using assms by (simp add: str_int_def)
  have "rev (texto @ ''-'' @ zfill 8 (digitos (nat n))) =
        rev (zfill 8 (digitos (nat n))) @ CHR ''-'' # rev texto"
    by simp
  moreover have "takeWhile (\<lambda>c. c \<noteq> CHR ''-'')
        (rev (zfill 8 (digitos (nat n))) @ CHR ''-'' # rev texto) =
      rev (zfill 8 (digitos (nat n)))"
    using zfill_sin_guion [of _ 8 "nat n"] by (subst takeWhile_append2) auto
  ultimately have "secuencia (texto @ ''-'' @ zfill 8 (str_int n)) =
        valor_digitos (zfill 8 (digitos (nat n)))"
    by (simp only: secuencia_def q rev_rev_ident)
  also have "\<dots> = nat n"
    by (simp only: zfill_digitos valor_digitos_ceros valor_digitos_digitos)
  finally show ?thesis .
qed

text \<open>
  What every request keeps: the counter of a series is above the sequence numbers of the
  stored invoices of the series, which increase.
\<close>

lemma secuencias_snoc:
  "secuencias tp (fs @ [f]) =
     (if tipo f = tp then secuencias tp fs @ [secuencia (numero f)] else secuencias tp fs)"
  by (simp add: secuencias_def)

lemma crear_factura_contadores:
  assumes c: "contadores s tp = Some (int c)" and c1: "1 \<le> c"
    and o: "sorted_wrt (<) (secuencias tp (facturas s))"
    and q: "\<forall>k \<in> set (secuencias tp (facturas s)). 1 \<le> k \<and> k < c"
    and r: "crear_factura env data s = (r, s')"
  shows "\<exists>c'. c \<le> c' \<and> contadores s' tp = Some (int c') \<and>
              sorted_wrt (<) (secuencias tp (facturas s')) \<and>
              (\<forall>k \<in> set (secuencias tp (facturas s')). 1 \<le> k \<and> k < c')"
proof (cases "\<exists>f. fst r = FacturaAutorizada f")
  case False
  then have n: "\<forall>f. fst r \<noteq> FacturaAutorizada f" by simp
  from crear_factura_sin_exito [OF r n] have f: "facturas s' = facturas s"
    and d: "s' = s \<or> (\<exists>tp' n. contadores s tp' = Some n \<and>
                  s' = s\<lparr>contadores := (contadores s)(tp' \<mapsto> n + 1)\<rparr>)"
    by auto
  from d show ?thesis
  proof
    assume "s' = s"
    with c o q show ?thesis by auto
  next
    assume "\<exists>tp' n. contadores s tp' = Some n \<and>
                  s' = s\<lparr>contadores := (contadores s)(tp' \<mapsto> n + 1)\<rparr>"
    then obtain tp' n where n: "contadores s tp' = Some n"
      and s': "s' = s\<lparr>contadores := (contadores s)(tp' \<mapsto> n + 1)\<rparr>" by blast
    show ?thesis
    proof (cases "tp' = tp")
      case True
      with n c have "n = int c" by simp
      with True have "contadores s' tp = Some (int (c + 1))" by (simp add: s')
      moreover have "\<forall>k \<in> set (secuencias tp (facturas s')). 1 \<le> k \<and> k < c + 1"
        using q f by auto
      ultimately show ?thesis using o f by (intro exI [of _ "c + 1"]) simp
    next
      case False
      with c have "contadores s' tp = Some (int c)" by (simp add: s')
      with o q f show ?thesis by (intro exI [of _ c]) simp
    qed
  qed
next
  case True
  then obtain f where f: "fst r = FacturaAutorizada f" by blast
  from crear_factura_exito [OF r f] obtain pv n where
    n: "contadores s (tipo f) = Some n"
    and nf: "numero f = zfill 5 (str_punto pv) @ ''-'' @ zfill 8 (str_int n)"
    and s': "s' = s\<lparr>contadores := (contadores s)(tipo f \<mapsto> n + 1), facturas := facturas s @ [f]\<rparr>"
    by blast
  show ?thesis
  proof (cases "tipo f = tp")
    case True
    with n c have n': "n = int c" by simp
    have "secuencia (numero f) = c"
      using secuencia_numero [of n "zfill 5 (str_punto pv)"] by (simp add: nf n')
    then have e: "secuencias tp (facturas s') = secuencias tp (facturas s) @ [c]"
      using True by (simp add: secuencias_snoc s')
    have "sorted_wrt (<) (secuencias tp (facturas s) @ [c])"
      using o q by (simp add: sorted_wrt_append)
    moreover have "\<forall>k \<in> set (secuencias tp (facturas s) @ [c]). 1 \<le> k \<and> k < c + 1"
      using q c1 by auto
    moreover have "contadores s' tp = Some (int (c + 1))"
      using True n' by (simp add: s')
    ultimately show ?thesis unfolding e by (intro exI [of _ "c + 1"]) simp
  next
    case False
    then have "secuencias tp (facturas s') = secuencias tp (facturas s)"
      by (simp add: secuencias_snoc s')
    moreover have "contadores s' tp = Some (int c)" using False c by (simp add: s')
    ultimately show ?thesis using o q by (intro exI [of _ c]) simp
  qed
qed

lemma ejecutar_contadores:
  assumes "contadores s tp = Some (int c)" and "1 \<le> c"
    and "sorted_wrt (<) (secuencias tp (facturas s))"
    and "\<forall>k \<in> set (secuencias tp (facturas s)). 1 \<le> k \<and> k < c"
  shows "\<exists>c'. c \<le> c' \<and> contadores (snd (ejecutar reqs s)) tp = Some (int c') \<and>
              sorted_wrt (<) (secuencias tp (facturas (snd (ejecutar reqs s)))) \<and>
              (\<forall>k \<in> set (secuencias tp (facturas (snd (ejecutar reqs s)))). 1 \<le> k \<and> k < c')"
  using assms
proof (induction reqs arbitrary: s c)
  case Nil
  then show ?case by auto
next
  case (Cons a reqs)
  obtain env data where a: "a = (env, data)" by (cases a)
  obtain r s' where cr: "crear_factura env data s = (r, s')" by (cases "crear_factura env data s")
  from crear_factura_contadores [OF Cons.prems cr]
  obtain c' where c': "c \<le> c'" "contadores s' tp = Some (int c')"
    "sorted_wrt (<) (secuencias tp (facturas s'))"
    "\<forall>k \<in> set (secuencias tp (facturas s')). 1 \<le> k \<and> k < c'" by blast
  then have "1 \<le> c'" using Cons.prems(2) by simp
  from Cons.IH [OF c'(2) this c'(3) c'(4)]
  obtain c'' where "c' \<le> c''" "contadores (snd (ejecutar reqs s')) tp = Some (int c'')"
    "sorted_wrt (<) (secuencias tp (facturas (snd (ejecutar reqs s'))))"
    "\<forall>k \<in> set (secuencias tp (facturas (snd (ejecutar reqs s')))). 1 \<le> k \<and> k < c''" by blast
  with c'(1) show ?case
    by (intro exI [of _ c'']) (simp add: a cr ejecutar_Cons_snd del: ejecutar.simps)
qed

text \<open>
  While no request fails on the expiry date, the sequence numbers of a series are all the
  numbers below its counter.
\<close>

lemma crear_factura_contadores_exacto:
  assumes c: "contadores s tp = Some (int c)" and c1: "1 \<le> c"
    and q: "secuencias tp (facturas s) = [1 ..< c]"
    and v: "vencimiento_en_rango env"
    and r: "crear_factura env data s = (r, s')"
  shows "\<exists>c'. contadores s' tp = Some (int c') \<and> 1 \<le> c' \<and>
              secuencias tp (facturas s') = [1 ..< c']"
proof (cases "\<exists>f. fst r = FacturaAutorizada f")
  case False
  then have n: "\<forall>f. fst r \<noteq> FacturaAutorizada f" by simp
  from crear_factura_sin_exito [OF r n] sumar_dias_en_rango [OF v] have "s' = s" by auto
  with c c1 q show ?thesis by auto
next
  case True
  then obtain f where f: "fst r = FacturaAutorizada f" by blast
  from crear_factura_exito [OF r f] obtain pv n where
    n: "contadores s (tipo f) = Some n"
    and nf: "numero f = zfill 5 (str_punto pv) @ ''-'' @ zfill 8 (str_int n)"
    and s': "s' = s\<lparr>contadores := (contadores s)(tipo f \<mapsto> n + 1), facturas := facturas s @ [f]\<rparr>"
    by blast
  show ?thesis
  proof (cases "tipo f = tp")
    case True
    with n c have n': "n = int c" by simp
    have "secuencia (numero f) = c"
      using secuencia_numero [of n "zfill 5 (str_punto pv)"] by (simp add: nf n')
    then have "secuencias tp (facturas s') = [1 ..< c] @ [c]"
      using q True by (simp add: secuencias_snoc s')
    also have "\<dots> = [1 ..< c + 1]" using c1 by simp
    finally have "secuencias tp (facturas s') = [1 ..< c + 1]" .
    moreover have "contadores s' tp = Some (int (c + 1))"
      using True n' by (simp add: s')
    ultimately show ?thesis by (intro exI [of _ "c + 1"]) simp
  next
    case False
    then have "secuencias tp (facturas s') = [1 ..< c]"
      using q by (simp add: secuencias_snoc s')
    moreover have "contadores s' tp = Some (int c)" using False c by (simp add: s')
    ultimately show ?thesis using c1 by auto
  qed
qed

lemma ejecutar_contadores_exacto:
  assumes "contadores s tp = Some (int c)" and "1 \<le> c"
    and "secuencias tp (facturas s) = [1 ..< c]"
    and "\<forall>req \<in> set reqs. vencimiento_en_rango (fst req)"
  shows "\<exists>c'. contadores (snd (ejecutar reqs s)) tp = Some (int c') \<and> 1 \<le> c' \<and>
              secuencias tp (facturas (snd (ejecutar reqs s))) = [1 ..< c']"
  using assms
proof (induction reqs arbitrary: s c)
  case Nil
  then show ?case by auto
next
  case (Cons a reqs)
  obtain env data where a: "a = (env, data)" by (cases a)
  obtain r s' where cr: "crear_factura env data s = (r, s')" by (cases "crear_factura env data s")
  have v: "vencimiento_en_rango env" using Cons.prems(4) a by simp
  from crear_factura_contadores_exacto [OF Cons.prems(1,2,3) v cr]
  obtain c' where c': "contadores s' tp = Some (int c')" "1 \<le> c'"
    "secuencias tp (facturas s') = [1 ..< c']" by blast
  have "\<forall>req \<in> set reqs. vencimiento_en_rango (fst req)" using Cons.prems(4) by simp
  from Cons.IH [OF c' this]
  show ?case by (simp add: a cr ejecutar_Cons_snd del: ejecutar.simps)
qed

lemma crear_factura_contador_mono:
  assumes "contadores s tp = Some n"
  shows "\<exists>n'. n \<le> n' \<and> contadores (snd (crear_factura env data s)) tp = Some n'"
proof -
  obtain r s' where r: "crear_factura env data s = (r, s')" by (cases "crear_factura env data s")
  show ?thesis
  proof (cases "\<exists>f. fst r = FacturaAutorizada f")
    case False
    then have n: "\<forall>f. fst r \<noteq> FacturaAutorizada f" by simp
    from crear_factura_sin_exito [OF r n]
    have "s' = s \<or> (\<exists>tp' k. contadores s tp' = Some k \<and>
                  s' = s\<lparr>contadores := (contadores s)(tp' \<mapsto> k + 1)\<rparr>)"
      by auto
    then show ?thesis
    proof
      assume "s' = s"
      with assms r show ?thesis by simp
    next
      assume "\<exists>tp' k. contadores s tp' = Some k \<and>
                  s' = s\<lparr>contadores := (contadores s)(tp' \<mapsto> k + 1)\<rparr>"
      then obtain tp' k where "contadores s tp' = Some k"
        "s' = s\<lparr>contadores := (contadores s)(tp' \<mapsto> k + 1)\<rparr>" by blast
      with assms r show ?thesis by (cases "tp' = tp") auto
    qed
  next
    case True
    then obtain f where f: "fst r = FacturaAutorizada f" by blast
    from crear_factura_exito [OF r f] obtain k where
      "contadores s (tipo f) = Some k"
      "s' = s\<lparr>contadores := (contadores s)(tipo f \<mapsto> k + 1), facturas := facturas s @ [f]\<rparr>"
      by blast
    with assms r show ?thesis by (cases "tipo f = tp") auto
  qed
qed

lemma ejecutar_contador_mono:
  assumes "contadores s tp = Some n"
  shows "\<exists>n'. n \<le> n' \<and> contadores (snd (ejecutar reqs s)) tp = Some n'"
  using assms
proof (induction reqs arbitrary: s n)
  case Nil
  then show ?case by simp
next
  case (Cons a reqs)
  obtain env data where a: "a = (env, data)" by (cases a)
  from crear_factura_contador_mono [OF Cons.prems, of env data]
  obtain k where k: "n \<le> k" "contadores (snd (crear_factura env data s)) tp = Some k" by blast
  from Cons.IH [OF k(2)] obtain m where "k \<le> m"
    "contadores (snd (ejecutar reqs (snd (crear_factura env data s)))) tp = Some m" by blast
  with k(1) show ?case
    by (intro exI [of _ m]) (simp add: a ejecutar_Cons_snd del: ejecutar.simps)
qed

text \<open>
  C7. The counter is kept per series and is the same for every point of sale. A call of
  the number generator for a series whose counter is \<open>n\<close> returns the text of the
  point of sale padded with zeros to five characters, a dash, and \<open>n\<close> padded to eight
  digits, so that the digits after the dash read \<open>n\<close>; it leaves the counter of that
  series at \<open>n + 1\<close> and the other counters and the invoices as they were; the next
  call for the series, from whatever point of sale, is numbered \<open>n + 1\<close>. Through any
  sequence of requests a counter never decreases. From the empty database both counters
  start at 1, and after any sequence of requests the sequence numbers of the stored
  invoices of a series, read back from their formatted numbers in the order of creation,
  are strictly increasing, whatever the points of sale, at least 1 and below the
  counter of the series; when no request met a clock within ten days of the last date,
  they are exactly 1, 2, ..., up to the counter minus one.
\<close>

theorem contador_por_serie:
  "(contadores s tp = Some n \<longrightarrow>
      generar_numero_factura tp pv s =
        Inr (zfill 5 (str_punto pv) @ ''-'' @ zfill 8 (str_int n),
             s\<lparr>contadores := (contadores s)(tp \<mapsto> n + 1)\<rparr>) \<and>
      generar_numero_factura tp pv' (s\<lparr>contadores := (contadores s)(tp \<mapsto> n + 1)\<rparr>) =
        Inr (zfill 5 (str_punto pv') @ ''-'' @ zfill 8 (str_int (n + 1)),
             s\<lparr>contadores := (contadores s)(tp \<mapsto> n + 2)\<rparr>)) \<and>
   (contadores s tp = Some n \<and> 0 \<le> n \<and> tp' \<noteq> tp \<longrightarrow>
      (\<exists>num s1. generar_numero_factura tp pv s = Inr (num, s1) \<and> secuencia num = nat n \<and>
         contadores s1 tp = Some (n + 1) \<and> contadores s1 tp' = contadores s tp' \<and>
         facturas s1 = facturas s)) \<and>
   (contadores s tp = Some n \<longrightarrow>
      (\<exists>n'. n \<le> n' \<and> contadores (snd (ejecutar reqs s)) tp = Some n')) \<and>
   (tp = ''A'' \<or> tp = ''B'' \<longrightarrow>
      contadores (bd_inicial :: 'c bd) tp = Some 1 \<and>
      (\<exists>c. 1 \<le> c \<and>
         contadores (snd (ejecutar reqs (bd_inicial :: 'c bd))) tp = Some (int c) \<and>
         sorted_wrt (<) (secuencias tp (facturas (snd (ejecutar reqs (bd_inicial :: 'c bd))))) \<and>
         (\<forall>k \<in> set (secuencias tp (facturas (snd (ejecutar reqs (bd_inicial :: 'c bd))))).
            1 \<le> k \<and> k < c) \<and>
         ((\<forall>req \<in> set reqs. vencimiento_en_rango (fst req)) \<longrightarrow>
            secuencias tp (facturas (snd (ejecutar reqs (bd_inicial :: 'c bd)))) = [1 ..< c])))"
proof (intro conjI impI)
  assume n: "contadores s tp = Some n"
  then show "generar_numero_factura tp pv s =
        Inr (zfill 5 (str_punto pv) @ ''-'' @ zfill 8 (str_int n),
             s\<lparr>contadores := (contadores s)(tp \<mapsto> n + 1)\<rparr>)"
    by (simp add: generar_numero_factura_def)
  show "generar_numero_factura tp pv' (s\<lparr>contadores := (contadores s)(tp \<mapsto> n + 1)\<rparr>) =
        Inr (zfill 5 (str_punto pv') @ ''-'' @ zfill 8 (str_int (n + 1)),
             s\<lparr>contadores := (contadores s)(tp \<mapsto> n + 2)\<rparr>)"
    by (simp add: generar_numero_factura_def add.commute)
next
  assume h: "contadores s tp = Some n \<and> 0 \<le> n \<and> tp' \<noteq> tp"
  then have "generar_numero_factura tp pv s =
        Inr (zfill 5 (str_punto pv) @ ''-'' @ zfill 8 (str_int n),
             s\<lparr>contadores := (contadores s)(tp \<mapsto> n + 1)\<rparr>)"
    by (simp add: generar_numero_factura_def)
  moreover have "secuencia (zfill 5 (str_punto pv) @ ''-'' @ zfill 8 (str_int n)) = nat n"
    using h by (intro secuencia_numero) simp
  ultimately show "\<exists>num s1. generar_numero_factura tp pv s = Inr (num, s1) \<and>
         secuencia num = nat n \<and>
         contadores s1 tp = Some (n + 1) \<and> contadores s1 tp' = contadores s tp' \<and>
         facturas s1 = facturas s"
    using h by simp
next
  assume "contadores s tp = Some n"
  then show "\<exists>n'. n \<le> n' \<and> contadores (snd (ejecutar reqs s)) tp = Some n'"
    by (rule ejecutar_contador_mono)
next
  assume tp: "tp = ''A'' \<or> tp = ''B''"
  then show i: "contadores (bd_inicial :: 'c bd) tp = Some 1"
    by (auto simp: bd_inicial_def)
  let ?s = "snd (ejecutar reqs (bd_inicial :: 'c bd))"
  have e: "secuencias tp (facturas (bd_inicial :: 'c bd)) = []"
    by (simp add: secuencias_def bd_inicial_def)
  from i e ejecutar_contadores [of "bd_inicial :: 'c bd" tp 1 reqs]
  obtain c where c: "1 \<le> c" "contadores ?s tp = Some (int c)"
    "sorted_wrt (<) (secuencias tp (facturas ?s))"
    "\<forall>k \<in> set (secuencias tp (facturas ?s)). 1 \<le> k \<and> k < c"
    by auto
  have "secuencias tp (facturas ?s) = [1 ..< c]"
    if v: "\<forall>req \<in> set reqs. vencimiento_en_rango (fst req)"
  proof -
    from i e ejecutar_contadores_exacto [of "bd_inicial :: 'c bd" tp 1 reqs] v
    obtain c' where "contadores ?s tp = Some (int c')"
      "secuencias tp (facturas ?s) = [1 ..< c']" by auto
    with c(2) show ?thesis by simp
  qed
  with c show "\<exists>c. 1 \<le> c \<and> contadores ?s tp = Some (int c) \<and>
         sorted_wrt (<) (secuencias tp (facturas ?s)) \<and>
         (\<forall>k \<in> set (secuencias tp (facturas ?s)). 1 \<le> k \<and> k < c) \<and>
         ((\<forall>req \<in> set reqs. vencimiento_en_rango (fst req)) \<longrightarrow>
            secuencias tp (facturas ?s) = [1 ..< c])"
    by blast
qed

theorem contador_por_serie_witness:
  "generar_numero_factura ''A'' (PvInt 5) (bd_inicial :: unit bd) =
     Inr (''00005-00000001'',
          (bd_inicial :: unit bd)\<lparr>contadores := (contadores (bd_inicial :: unit bd))(''A'' \<mapsto> 2)\<rparr>) \<and>
   generar_numero_factura ''A'' (PvBool True)
       ((bd_inicial :: unit bd)\<lparr>contadores := (contadores (bd_inicial :: unit bd))(''A'' \<mapsto> 2)\<rparr>) =
     Inr (''0True-00000002'',
          (bd_inicial :: unit bd)\<lparr>contadores := (contadores (bd_inicial :: unit bd))(''A'' \<mapsto> 3)\<rparr>) \<and>
   secuencia ''00005-00000001'' = 1 \<and>
   contadores (snd (ejecutar solicitudes_ejemplo (bd_inicial :: unit bd))) ''A'' = Some 3 \<and>
   secuencias ''A'' (facturas (snd (ejecutar solicitudes_ejemplo (bd_inicial :: unit bd)))) = [1, 2] \<and>
   map puntoVenta (facturas (snd (ejecutar solicitudes_ejemplo (bd_inicial :: unit bd)))) =
     [PvInt 1, PvFloat 2, PvInt 5] \<and>
   map numero (facturas (snd (ejecutar solicitudes_ejemplo (bd_inicial :: unit bd)))) =
     [''00001-00000001'', ''002.0-00000001'', ''00005-00000002''] \<and>
   contadores (snd (ejecutar solicitudes_con_fallo (bd_inicial :: unit bd))) ''A'' = Some 3 \<and>
   map numero (facturas (snd (ejecutar solicitudes_con_fallo (bd_inicial :: unit bd)))) =
     [''0True-00000002''] \<and>
   secuencias ''A'' (facturas (snd (ejecutar solicitudes_con_fallo (bd_inicial :: unit bd)))) =
     [2]"
proof -
  have i: "contadores (bd_inicial :: unit bd) ''A'' = Some 1" by (simp add: bd_inicial_def)
  note t = contador_por_serie
    [of "bd_inicial :: unit bd" "''A''" 1 "PvInt 5" "PvBool True" "''B''" solicitudes_ejemplo]
  note t1 = t [THEN conjunct1, THEN mp, OF i]
  from t1 have g: "generar_numero_factura ''A'' (PvInt 5) (bd_inicial :: unit bd) =
     Inr (''00005-00000001'',
          (bd_inicial :: unit bd)\<lparr>contadores := (contadores (bd_inicial :: unit bd))(''A'' \<mapsto> 2)\<rparr>)"
    "generar_numero_factura ''A'' (PvBool True)
       ((bd_inicial :: unit bd)\<lparr>contadores := (contadores (bd_inicial :: unit bd))(''A'' \<mapsto> 2)\<rparr>) =
     Inr (''0True-00000002'',
          (bd_inicial :: unit bd)\<lparr>contadores := (contadores (bd_inicial :: unit bd))(''A'' \<mapsto> 3)\<rparr>)"
    by (simp_all add: textos_ejemplo)
  from t [THEN conjunct2, THEN conjunct1] i g(1)
  have q1: "secuencia ''00005-00000001'' = 1" by auto
  have e: "snd (ejecutar solicitudes_ejemplo (bd_inicial :: unit bd)) = bd_ejemplo"
    by (simp add: ejecutar_ejemplo)
  have k: "contadores bd_ejemplo ''A'' = Some 3" by (simp add: bd_ejemplo_def)
  have v: "\<forall>req \<in> set solicitudes_ejemplo. vencimiento_en_rango (fst req)"
    by (simp add: solicitudes_ejemplo_def relojes_ejemplo)
  from t v obtain c where c: "contadores (snd (ejecutar solicitudes_ejemplo (bd_inicial :: unit bd))) ''A'' = Some (int c)"
    "secuencias ''A'' (facturas (snd (ejecutar solicitudes_ejemplo (bd_inicial :: unit bd)))) = [1 ..< c]"
    by auto
  with e k have "c = 3" by simp
  with c have q: "secuencias ''A'' (facturas (snd (ejecutar solicitudes_ejemplo (bd_inicial :: unit bd)))) = [1, 2]"
    by (simp add: upt_rec)
  have p: "map puntoVenta (facturas (snd (ejecutar solicitudes_ejemplo (bd_inicial :: unit bd)))) =
      [PvInt 1, PvFloat 2, PvInt 5]"
    "map numero (facturas (snd (ejecutar solicitudes_ejemplo (bd_inicial :: unit bd)))) =
     [''00001-00000001'', ''002.0-00000001'', ''00005-00000002'']"
    by (simp_all add: e bd_ejemplo_def factura_ejemplo_def factura_ejemplo_2_def factura_ejemplo_3_def)
  have e2: "snd (ejecutar solicitudes_con_fallo (bd_inicial :: unit bd)) =
      \<lparr>facturas = [factura_tras_fallo], contadores = [''A'' \<mapsto> 3, ''B'' \<mapsto> 1]\<rparr>"
    by (simp add: ejecutar_con_fallo)
  have k2: "contadores (snd (ejecutar solicitudes_con_fallo (bd_inicial :: unit bd))) ''A'' = Some 3"
    "map numero (facturas (snd (ejecutar solicitudes_con_fallo (bd_inicial :: unit bd)))) =
     [''0True-00000002'']"
    by (simp_all add: e2 factura_tras_fallo_def)
  have "secuencia ''0True-00000002'' = 2"
    by (simp add: secuencia_def valor_digitos_def)
  then have q2: "secuencias ''A''
      (facturas (snd (ejecutar solicitudes_con_fallo (bd_inicial :: unit bd)))) = [2]"
    by (simp add: e2 secuencias_def factura_tras_fallo_def)
  from g q1 q p k2 q2 e k show ?thesis by simp
qed

section \<open>Verification of a CAE\<close>

text \<open>
  C8. For every code, instant and database the check returns an answer (it has no error
  result). When no stored invoice has the code, the answer is not valid, with the
  not-found message and no invoice. Otherwise the first invoice with the code, in the
  order of insertion, is echoed; the answer is valid exactly when the instant is not
  past that invoice's expiry, and the message is "expired" or "valid" accordingly.
\<close>

theorem verificar_cae_resultado:
  "((\<forall>f \<in> set (facturas s). cae f \<noteq> c) \<longrightarrow>
      verificar_cae now c s =
        \<lparr>valido = False, factura_verificada = None, mensaje = CAE_no_encontrado\<rparr>) \<and>
   (\<forall>pre f post. facturas s = pre @ f # post \<and> (\<forall>g \<in> set pre. cae g \<noteq> c) \<and> cae f = c \<longrightarrow>
      verificar_cae now c s =
        \<lparr>valido = (now \<le> fechaVencimientoCAE f), factura_verificada = Some f,
         mensaje = (if fechaVencimientoCAE f < now then CAE_vencido else CAE_valido)\<rparr>)"
proof (intro conjI allI impI)
  assume "\<forall>f \<in> set (facturas s). cae f \<noteq> c"
  then have "find (\<lambda>f. cae f = c) (facturas s) = None"
    by (simp add: find_None_iff)
  then show "verificar_cae now c s =
        \<lparr>valido = False, factura_verificada = None, mensaje = CAE_no_encontrado\<rparr>"
    by (simp add: verificar_cae_def)
next
  fix pre f post
  assume h: "facturas s = pre @ f # post \<and> (\<forall>g \<in> set pre. cae g \<noteq> c) \<and> cae f = c"
  from h have "\<forall>g \<in> set pre. cae g \<noteq> c" and "cae f = c" by auto
  then have "find (\<lambda>f. cae f = c) (pre @ f # post) = Some f"
    by (induction pre) auto
  with h show "verificar_cae now c s =
        \<lparr>valido = (now \<le> fechaVencimientoCAE f), factura_verificada = Some f,
         mensaje = (if fechaVencimientoCAE f < now then CAE_vencido else CAE_valido)\<rparr>"
    by (auto simp: verificar_cae_def Let_def)
qed

theorem verificar_cae_resultado_witness:
  "verificar_cae 5 ''00000000000000''
       \<lparr>facturas = [factura_ejemplo], contadores = [''A'' \<mapsto> 2, ''B'' \<mapsto> 1]\<rparr> =
     \<lparr>valido = False, factura_verificada = None, mensaje = CAE_no_encontrado\<rparr> \<and>
   verificar_cae 864000000000 ''12345678901234''
       \<lparr>facturas = [factura_ejemplo], contadores = [''A'' \<mapsto> 2, ''B'' \<mapsto> 1]\<rparr> =
     \<lparr>valido = True, factura_verificada = Some factura_ejemplo, mensaje = CAE_valido\<rparr> \<and>
   verificar_cae 864000000001 ''12345678901234''
       \<lparr>facturas = [factura_ejemplo], contadores = [''A'' \<mapsto> 2, ''B'' \<mapsto> 1]\<rparr> =
     \<lparr>valido = False, factura_verificada = Some factura_ejemplo, mensaje = CAE_vencido\<rparr>"
proof -
  let ?s = "\<lparr>facturas = [factura_ejemplo], contadores = [''A'' \<mapsto> 2, ''B'' \<mapsto> (1::int)]\<rparr>"
  have c: "cae factura_ejemplo = ''12345678901234''"
    and v: "fechaVencimientoCAE factura_ejemplo = 864000000000"
    by (simp_all add: factura_ejemplo_def)
  have 1: "verificar_cae 5 ''00000000000000'' ?s =
     \<lparr>valido = False, factura_verificada = None, mensaje = CAE_no_encontrado\<rparr>"
    using verificar_cae_resultado [of ?s "''00000000000000''" 5] by (simp add: c)
  have "facturas ?s = [] @ factura_ejemplo # []" by simp
  then have 2: "verificar_cae now ''12345678901234'' ?s =
        \<lparr>valido = (now \<le> fechaVencimientoCAE factura_ejemplo),
         factura_verificada = Some factura_ejemplo,
         mensaje = (if fechaVencimientoCAE factura_ejemplo < now then CAE_vencido else CAE_valido)\<rparr>"
    for now
    using verificar_cae_resultado [of ?s "''12345678901234''" now] c
    by (metis empty_iff list.set(1))
  from 1 2 [of 864000000000] 2 [of 864000000001] show ?thesis by (simp add: v)
qed

section \<open>Statistics\<close>

lemma fl_0 [simp]: "fl 0 = Fin 0"
  by (simp add: fl_def)

lemma float_of_int_0 [simp]: "float_of_int 0 = Inr (Fin 0)"
  by (simp add: float_of_int_def)

lemma py_round2_float: "\<exists>y. py_round2 (PyFloat x) = PyFloat y"
  by (cases x) simp_all

lemma py_mul_float: "py_mul a (PyFloat y) = Inr v \<Longrightarrow> \<exists>z. v = PyFloat z"
  by (cases a) (auto simp: py_float_op_def split: sum.splits)

lemma py_add_float: "py_add a (PyFloat y) = Inr v \<Longrightarrow> \<exists>z. v = PyFloat z"
  by (cases a) (auto simp: py_float_op_def split: sum.splits)

lemma calcular_totales_total_float:
  assumes "calcular_totales its tp = Inr t"
  shows "\<exists>x. total t = PyFloat x"
proof -
  from assms obtain sub x tot where
    m: "py_mul sub importe_iva = Inr x" and a: "py_add sub x = Inr tot"
    and t: "total t = py_round2 tot"
    by (auto simp: calcular_totales_def Let_def split: sum.splits if_splits)
  from m obtain y where "x = PyFloat y"
    using py_mul_float [of sub "fl (21 / 100)" x] by (auto simp: importe_iva_def)
  with a obtain z where "tot = PyFloat z" using py_add_float by blast
  with t py_round2_float [of z] show ?thesis by auto
qed

lemma py_sum_gen_float:
  assumes "\<forall>f \<in> set fs. \<exists>x. g f = PyFloat x"
  shows "\<exists>v. py_sum_gen (\<lambda>f. Inr (g f)) (PyFloat a) fs = Inr (PyFloat v)"
  using assms
proof (induction fs arbitrary: a)
  case Nil
  then show ?case by simp
next
  case (Cons f fs)
  then obtain x where x: "g f = PyFloat x" by auto
  from Cons.IH [of "fadd a x"] Cons.prems show ?case
    by (simp add: x py_float_op_def)
qed

lemma py_sum_gen_total:
  assumes "\<forall>f \<in> set fs. \<exists>x. g f = PyFloat x"
  shows "\<exists>v. py_sum_gen (\<lambda>f. Inr (g f)) (PyInt 0) fs = Inr v"
proof (cases fs)
  case Nil
  then show ?thesis by simp
next
  case (Cons f fs')
  with assms obtain x where x: "g f = PyFloat x" by auto
  from assms Cons have "\<forall>f \<in> set fs'. \<exists>x. g f = PyFloat x" by simp
  from py_sum_gen_float [OF this, of "fadd (Fin 0) x"] obtain v where
    "py_sum_gen (\<lambda>f. Inr (g f)) (PyFloat (fadd (Fin 0) x)) fs' = Inr (PyFloat v)" by blast
  then show ?thesis
    by (simp add: Cons x py_float_op_def)
qed

lemma autorizadas_tipo_total:
  assumes "f \<in> set (autorizadas (fst (ejecutar reqs s)))"
  shows "(tipo f = ''A'' \<or> tipo f = ''B'') \<and> (\<exists>x. total f = PyFloat x)"
  using assms
proof (induction reqs arbitrary: s)
  case Nil
  then show ?case by simp
next
  case (Cons a reqs)
  obtain env data where a: "a = (env, data)" by (cases a)
  obtain r s' where c: "crear_factura env data s = (r, s')" by (cases "crear_factura env data s")
  show ?case
  proof (cases "\<exists>g. fst r = FacturaAutorizada g")
    case False
    then obtain m code where "r = (CuerpoError m, code)" by (cases r; cases "fst r") auto
    with Cons.prems a c have "f \<in> set (autorizadas (fst (ejecutar reqs s')))"
      by (simp split: prod.splits)
    then show ?thesis by (rule Cons.IH)
  next
    case True
    then obtain g where g: "fst r = FacturaAutorizada g" by blast
    then obtain code where r: "r = (FacturaAutorizada g, code)" by (cases r) auto
    from Cons.prems a c r have "f = g \<or> f \<in> set (autorizadas (fst (ejecutar reqs s')))"
      by (simp split: prod.splits)
    then show ?thesis
    proof
      assume "f = g"
      with crear_factura_exito [OF c g] calcular_totales_total_float show ?thesis
        by metis
    next
      assume "f \<in> set (autorizadas (fst (ejecutar reqs s')))"
      then show ?thesis by (rule Cons.IH)
    qed
  qed
qed

lemma filter_dos_tipos:
  assumes "\<forall>f \<in> set fs. tipo f = ''A'' \<or> tipo f = ''B''"
  shows "length fs = length (filter (\<lambda>f. tipo f = ''A'') fs) + length (filter (\<lambda>f. tipo f = ''B'') fs)"
  using assms by (induction fs) auto

text \<open>
  C9. After any sequence of requests served from the empty database, of which N created
  an invoice of series A and M one of series B, the stored invoices are exactly the
  created ones, the sum of their totals is computed without error, and the statistics
  are: total number of invoices N + M, series-A count N, series-B count M, and total
  invoiced the sum of the \<open>total\<close> fields rounded to two decimals.
\<close>

theorem estadisticas_tras_creaciones:
  "facturas (snd (ejecutar reqs (bd_inicial :: 'c bd))) =
     autorizadas (fst (ejecutar reqs (bd_inicial :: 'c bd))) \<and>
   (\<exists>total_facturado.
      py_sum_gen (\<lambda>f. Inr (total f)) (PyInt 0)
        (facturas (snd (ejecutar reqs (bd_inicial :: 'c bd)))) = Inr total_facturado \<and>
      obtener_estadisticas (snd (ejecutar reqs (bd_inicial :: 'c bd))) =
        Inr \<lparr>totalFacturas =
               length (filter (\<lambda>f. tipo f = ''A'') (autorizadas (fst (ejecutar reqs (bd_inicial :: 'c bd))))) +
               length (filter (\<lambda>f. tipo f = ''B'') (autorizadas (fst (ejecutar reqs (bd_inicial :: 'c bd))))),
             facturasA =
               length (filter (\<lambda>f. tipo f = ''A'') (autorizadas (fst (ejecutar reqs (bd_inicial :: 'c bd))))),
             facturasB =
               length (filter (\<lambda>f. tipo f = ''B'') (autorizadas (fst (ejecutar reqs (bd_inicial :: 'c bd))))),
             totalFacturado = py_round2 total_facturado\<rparr>)"
proof -
  let ?s = "snd (ejecutar reqs (bd_inicial :: 'c bd))"
  let ?fs = "autorizadas (fst (ejecutar reqs (bd_inicial :: 'c bd)))"
  have f: "facturas ?s = ?fs"
    using ejecutar_facturas [of reqs "bd_inicial :: 'c bd"] by (simp add: bd_inicial_def)
  have p: "\<forall>f \<in> set ?fs. (tipo f = ''A'' \<or> tipo f = ''B'') \<and> (\<exists>x. total f = PyFloat x)"
    using autorizadas_tipo_total by blast
  then have "\<forall>f \<in> set ?fs. \<exists>x. total f = PyFloat x" by blast
  from py_sum_gen_total [OF this] obtain v where
    v: "py_sum_gen (\<lambda>f. Inr (total f)) (PyInt 0) ?fs = Inr v" by blast
  from p have "\<forall>f \<in> set ?fs. tipo f = ''A'' \<or> tipo f = ''B''" by blast
  from filter_dos_tipos [OF this] have l: "length ?fs =
     length (filter (\<lambda>f. tipo f = ''A'') ?fs) + length (filter (\<lambda>f. tipo f = ''B'') ?fs)" .
  have "obtener_estadisticas ?s =
        Inr \<lparr>totalFacturas =
               length (filter (\<lambda>f. tipo f = ''A'') ?fs) + length (filter (\<lambda>f. tipo f = ''B'') ?fs),
             facturasA = length (filter (\<lambda>f. tipo f = ''A'') ?fs),
             facturasB = length (filter (\<lambda>f. tipo f = ''B'') ?fs),
             totalFacturado = py_round2 v\<rparr>"
    using l by (simp add: obtener_estadisticas_def f v Let_def)
  with f v show ?thesis by auto
qed

lemma suma_ejemplo:
  "py_sum_gen (\<lambda>f. Inr (total f)) (PyInt 0) (facturas bd_ejemplo) =
     Inr (PyFloat (Fin (6864822838252011 / 17592186044416)))"
  by (simp add: bd_ejemplo_def factura_ejemplo_def factura_ejemplo_2_def factura_ejemplo_3_def evaluar)

lemma redondeo_suma_ejemplo:
  "py_round2 (PyFloat (Fin (6864822838252011 / 17592186044416))) = PyFloat (fl (19511 / 50))"
  by (simp add: evaluar)

theorem estadisticas_tras_creaciones_witness:
  "obtener_estadisticas (snd (ejecutar solicitudes_ejemplo bd_inicial)) =
     Inr \<lparr>totalFacturas = 3, facturasA = 2, facturasB = 1,
          totalFacturado = PyFloat (fl (19511 / 50))\<rparr>"
proof -
  have e: "snd (ejecutar solicitudes_ejemplo bd_inicial) = bd_ejemplo"
    and a: "autorizadas (fst (ejecutar solicitudes_ejemplo bd_inicial)) =
         [factura_ejemplo, factura_ejemplo_2, factura_ejemplo_3]"
    by (simp_all add: ejecutar_ejemplo)
  have t: "tipo factura_ejemplo = ''A''" "tipo factura_ejemplo_2 = ''B''" "tipo factura_ejemplo_3 = ''A''"
    by (simp_all add: factura_ejemplo_def factura_ejemplo_2_def factura_ejemplo_3_def)
  from estadisticas_tras_creaciones [of solicitudes_ejemplo]
  show ?thesis
    by (simp add: e a t suma_ejemplo redondeo_suma_ejemplo del: py_round2.simps)
qed

section \<open>Amounts within the float range\<close>








lemma calcular_totales_valores:
  assumes "py_sum_gen importe_item (PyInt 0) its = Inr s" and "to_float s = Inr a"
  shows "calcular_totales its tp =
     Inr (if tp = ''A''
          then \<lparr>subtotal = py_round2 s,
                iva = py_round2 (PyFloat (fmul a (fl (21 / 100)))),
                total = py_round2 (PyFloat (fadd a (fmul a (fl (21 / 100)))))\<rparr>
          else \<lparr>subtotal = py_round2 (PyFloat (fadd a (fmul a (fl (21 / 100))))),
                iva = py_round2 (PyFloat (fsub (fadd a (fmul a (fl (21 / 100))))
                                              (fadd a (fmul a (fl (21 / 100)))))),
                total = py_round2 (PyFloat (fadd a (fmul a (fl (21 / 100)))))\<rparr>)"
  using assms
  by (cases s)
     (simp_all add: calcular_totales_def importe_iva_def py_float_op_def Let_def
        del: py_round2.simps)


section \<open>Items are not validated\<close>






section \<open>Totals of series A\<close>

lemma rhe_empate:
  "\<bar>of_int (round_half_even x) - x\<bar> = 1 / 2 \<Longrightarrow> even (round_half_even x)"
proof -
  assume h: "\<bar>of_int (round_half_even x) - x\<bar> = 1 / 2"
  define d where "d = x - of_int \<lfloor>x\<rfloor>"
  have d: "0 \<le> d" "d < 1" by (simp_all add: d_def) linarith
  have x: "x = of_int \<lfloor>x\<rfloor> + d" by (simp add: d_def)
  consider "d < 1 / 2" | "1 / 2 < d" | "d = 1 / 2" by linarith
  then show ?thesis
  proof cases
    case 1
    then have "round_half_even x = \<lfloor>x\<rfloor>"
      unfolding round_half_even_def Let_def d_def [symmetric] by simp
    then have "of_int (round_half_even x) - x = - d" using x by simp
    with h d 1 show ?thesis by simp
  next
    case 2
    then have "round_half_even x = \<lfloor>x\<rfloor> + 1"
      unfolding round_half_even_def Let_def d_def [symmetric] by simp
    then have "of_int (round_half_even x) - x = 1 - d" using x by simp
    with h d 2 show ?thesis by simp
  next
    case 3
    then show ?thesis
      unfolding round_half_even_def Let_def d_def [symmetric] by simp
  qed
qed

text \<open>The sum of the amounts of the items, from the last item and for \<open>int\<close> items.\<close>

lemma py_sum_gen_snoc:
  "py_sum_gen f acc (xs @ [x]) =
     (case py_sum_gen f acc xs of
        Inl e \<Rightarrow> Inl e
      | Inr s \<Rightarrow> (case f x of Inl e \<Rightarrow> Inl e | Inr v \<Rightarrow> py_add s v))"
  by (induction xs arbitrary: acc) (auto split: sum.splits)

lemma py_sum_gen_enteros:
  "py_sum_gen importe_item (PyInt k) (map item_entero qps) =
     Inr (PyInt (k + sum_list (map (\<lambda>qp. fst qp * snd qp) qps)))"
  by (induction qps arbitrary: k) (simp_all add: importe_item_def item_entero_def add.assoc)

lemma suma_items_snoc:
  "py_sum_gen importe_item (PyInt 0) (its @ [it]) =
     (case py_sum_gen importe_item (PyInt 0) its of
        Inl e \<Rightarrow> Inl e
      | Inr s \<Rightarrow> (case py_mul (cantidad it) (precioUnitario it) of
                   Inl e \<Rightarrow> Inl e
                 | Inr v \<Rightarrow> py_add s v))"
  unfolding py_sum_gen_snoc importe_item_def by (rule refl)

lemma suma_items_enteros:
  "py_sum_gen importe_item (PyInt 0) (map item_entero qps) =
     Inr (PyInt (sum_list (map (\<lambda>qp. fst qp * snd qp) qps)))"
  using py_sum_gen_enteros [of 0 qps] by simp

text \<open>
  C1, as amended. The sum of the items starts from the \<open>int\<close> 0 and adds the product
  of quantity and price of each item in turn, with Python's arithmetic: for items of
  \<open>int\<close> quantity and price it is the exact sum of the products, and floats are
  multiplied and added one at a time, left to right, each result rounded to the nearest
  float. For every list of items whose sum is \<open>s\<close>, and \<open>a\<close> the float of \<open>s\<close>, the
  series-A computation returns subtotal = \<open>s\<close>, tax = \<open>a\<close> times 0.21 and total = \<open>a\<close>
  plus that tax, in float arithmetic, each rounded to two decimals by Python's \<open>round\<close>;
  it raises where the sum does, or where the sum is an \<open>int\<close> too large for a float.
  Rounding a finite float takes the integer nearest to a hundred times its exact value, a
  tie going to the even integer (not up). For the single item of quantity 2 and price 100
  the result is 200, 42.0, 242.0.
\<close>

theorem calcular_totales_A:
  "py_sum_gen importe_item (PyInt 0) [] = Inr (PyInt 0) \<and>
   py_sum_gen importe_item (PyInt 0) (its @ [it]) =
     (case py_sum_gen importe_item (PyInt 0) its of
        Inl e \<Rightarrow> Inl e
      | Inr s \<Rightarrow> (case py_mul (cantidad it) (precioUnitario it) of
                   Inl e \<Rightarrow> Inl e
                 | Inr v \<Rightarrow> py_add s v)) \<and>
   py_sum_gen importe_item (PyInt 0) (map item_entero qps) =
     Inr (PyInt (sum_list (map (\<lambda>qp. fst qp * snd qp) qps))) \<and>
   (\<bar>sum_list (map (\<lambda>qp. fst qp * snd qp) qps)\<bar> \<le> 2 ^ 1023 \<longrightarrow>
      calcular_totales (map item_entero qps) ''A'' =
        Inr \<lparr>subtotal = PyInt (sum_list (map (\<lambda>qp. fst qp * snd qp) qps)),
             iva = py_round2 (PyFloat
               (fmul (Fin (rnd (of_int (sum_list (map (\<lambda>qp. fst qp * snd qp) qps)))))
                  (fl (21 / 100)))),
             total = py_round2 (PyFloat
               (fadd (Fin (rnd (of_int (sum_list (map (\<lambda>qp. fst qp * snd qp) qps)))))
                  (fmul (Fin (rnd (of_int (sum_list (map (\<lambda>qp. fst qp * snd qp) qps)))))
                     (fl (21 / 100)))))\<rparr>) \<and>
   (py_sum_gen importe_item (PyInt 0) its = Inr s \<and> to_float s = Inr a \<longrightarrow>
      calcular_totales its ''A'' =
        Inr \<lparr>subtotal = py_round2 s,
             iva = py_round2 (PyFloat (fmul a (fl (21 / 100)))),
             total = py_round2 (PyFloat (fadd a (fmul a (fl (21 / 100)))))\<rparr>) \<and>
   (py_sum_gen importe_item (PyInt 0) its = Inr s \<and> to_float s = Inl e \<longrightarrow>
      calcular_totales its ''A'' = Inl e) \<and>
   (py_sum_gen importe_item (PyInt 0) its = Inl e \<longrightarrow> calcular_totales its ''A'' = Inl e) \<and>
   py_round2 (PyInt k) = PyInt k \<and>
   py_round2 (PyFloat (Fin x)) = PyFloat (fl (of_int (round_half_even (x * 100)) / 100)) \<and>
   \<bar>of_int (round_half_even (x * 100)) - x * 100\<bar> \<le> 1 / 2 \<and>
   (\<bar>of_int (round_half_even (x * 100)) - x * 100\<bar> = 1 / 2 \<longrightarrow> even (round_half_even (x * 100)))"
proof (intro conjI impI)
  show "py_sum_gen importe_item (PyInt 0) [] = Inr (PyInt 0)" by simp
  show "py_sum_gen importe_item (PyInt 0) (its @ [it]) =
     (case py_sum_gen importe_item (PyInt 0) its of
        Inl e \<Rightarrow> Inl e
      | Inr s \<Rightarrow> (case py_mul (cantidad it) (precioUnitario it) of
                   Inl e \<Rightarrow> Inl e
                 | Inr v \<Rightarrow> py_add s v))"
    by (rule suma_items_snoc)
  show "py_sum_gen importe_item (PyInt 0) (map item_entero qps) =
     Inr (PyInt (sum_list (map (\<lambda>qp. fst qp * snd qp) qps)))"
    by (rule suma_items_enteros)
next
  define S where "S = sum_list (map (\<lambda>qp. fst qp * snd qp) qps)"
  assume "\<bar>sum_list (map (\<lambda>qp. fst qp * snd qp) qps)\<bar> \<le> 2 ^ 1023"
  then have "\<bar>S\<bar> \<le> 2 ^ 1023" by (simp add: S_def)
  then have "to_float (PyInt S) = Inr (Fin (rnd (of_int S)))"
    by (simp add: float_of_int_en_rango)
  from calcular_totales_valores [OF suma_items_enteros [of qps, folded S_def] this, of "''A''"]
  show "calcular_totales (map item_entero qps) ''A'' =
        Inr \<lparr>subtotal = PyInt (sum_list (map (\<lambda>qp. fst qp * snd qp) qps)),
             iva = py_round2 (PyFloat
               (fmul (Fin (rnd (of_int (sum_list (map (\<lambda>qp. fst qp * snd qp) qps)))))
                  (fl (21 / 100)))),
             total = py_round2 (PyFloat
               (fadd (Fin (rnd (of_int (sum_list (map (\<lambda>qp. fst qp * snd qp) qps)))))
                  (fmul (Fin (rnd (of_int (sum_list (map (\<lambda>qp. fst qp * snd qp) qps)))))
                     (fl (21 / 100)))))\<rparr>"
    by (simp add: S_def del: py_round2.simps(2) fmul.simps fadd.simps)
next
  assume "py_sum_gen importe_item (PyInt 0) its = Inr s \<and> to_float s = Inr a"
  then show "calcular_totales its ''A'' =
        Inr \<lparr>subtotal = py_round2 s,
             iva = py_round2 (PyFloat (fmul a (fl (21 / 100)))),
             total = py_round2 (PyFloat (fadd a (fmul a (fl (21 / 100)))))\<rparr>"
    by (cases s) (simp_all add: calcular_totales_def importe_iva_def py_float_op_def)
next
  assume "py_sum_gen importe_item (PyInt 0) its = Inr s \<and> to_float s = Inl e"
  then show "calcular_totales its ''A'' = Inl e"
    by (cases s) (simp_all add: calcular_totales_def importe_iva_def py_float_op_def)
next
  assume "py_sum_gen importe_item (PyInt 0) its = Inl e"
  then show "calcular_totales its ''A'' = Inl e"
    by (simp add: calcular_totales_def)
next
  show "py_round2 (PyInt k) = PyInt k" by simp
  show "py_round2 (PyFloat (Fin x)) = PyFloat (fl (of_int (round_half_even (x * 100)) / 100))"
    by simp
  show "\<bar>of_int (round_half_even (x * 100)) - x * 100\<bar> \<le> 1 / 2"
    by (rule rhe_bounds)
next
  assume "\<bar>of_int (round_half_even (x * 100)) - x * 100\<bar> = 1 / 2"
  then show "even (round_half_even (x * 100))" by (rule rhe_empate)
qed

lemma valores_ejemplo_1:
  "to_float (PyInt 200) = Inr (Fin 200)"
  "rnd 200 = 200"
  "py_round2 (PyFloat (fmul (Fin 200) (fl (21 / 100)))) = PyFloat (Fin 42)"
  "py_round2 (PyFloat (fadd (Fin 200) (fmul (Fin 200) (fl (21 / 100))))) = PyFloat (Fin 242)"
  by (simp_all add: evaluar)

lemma valores_ejemplo_mixto:
  "py_mul (PyInt 3) (PyFloat (Fin (1 / 2))) = Inr (PyFloat (Fin (3 / 2)))"
  "py_add (PyInt 200) (PyFloat (Fin (3 / 2))) = Inr (PyFloat (Fin (403 / 2)))"
  "py_round2 (PyFloat (Fin (403 / 2))) = PyFloat (Fin (403 / 2))"
  "py_round2 (PyFloat (fmul (Fin (403 / 2)) (fl (21 / 100)))) = PyFloat (fl (4231 / 100))"
  "py_round2 (PyFloat (fadd (Fin (403 / 2)) (fmul (Fin (403 / 2)) (fl (21 / 100))))) =
     PyFloat (fl (24381 / 100))"
  by (simp_all add: evaluar)

theorem calcular_totales_A_witness:
  "calcular_totales [\<lparr>cantidad = PyInt 2, precioUnitario = PyInt 100\<rparr>] ''A'' =
     Inr \<lparr>subtotal = PyInt 200, iva = PyFloat (Fin 42), total = PyFloat (Fin 242)\<rparr> \<and>
   py_sum_gen importe_item (PyInt 0)
       [\<lparr>cantidad = PyInt 1, precioUnitario = PyInt 100\<rparr>,
        \<lparr>cantidad = PyInt 1, precioUnitario = PyInt 100\<rparr>] = Inr (PyInt 200) \<and>
   calcular_totales
       [\<lparr>cantidad = PyInt 1, precioUnitario = PyInt 100\<rparr>,
        \<lparr>cantidad = PyInt 1, precioUnitario = PyInt 100\<rparr>] ''A'' =
     Inr \<lparr>subtotal = PyInt 200, iva = PyFloat (Fin 42), total = PyFloat (Fin 242)\<rparr> \<and>
   py_sum_gen importe_item (PyInt 0)
       [\<lparr>cantidad = PyInt 2, precioUnitario = PyInt 100\<rparr>,
        \<lparr>cantidad = PyInt 3, precioUnitario = PyFloat (Fin (1 / 2))\<rparr>] =
     Inr (PyFloat (Fin (403 / 2))) \<and>
   calcular_totales
       [\<lparr>cantidad = PyInt 2, precioUnitario = PyInt 100\<rparr>,
        \<lparr>cantidad = PyInt 3, precioUnitario = PyFloat (Fin (1 / 2))\<rparr>] ''A'' =
     Inr \<lparr>subtotal = PyFloat (Fin (403 / 2)), iva = PyFloat (fl (4231 / 100)),
          total = PyFloat (fl (24381 / 100))\<rparr> \<and>
   calcular_totales [\<lparr>cantidad = PyInt (2 ^ 1024), precioUnitario = PyInt 1\<rparr>] ''A'' =
     Inl OverflowError"
proof -
  let ?a = "\<lparr>cantidad = PyInt 2, precioUnitario = PyInt 100\<rparr>"
  let ?b = "\<lparr>cantidad = PyInt 1, precioUnitario = PyInt 100\<rparr>"
  let ?c = "\<lparr>cantidad = PyInt 3, precioUnitario = PyFloat (Fin (1 / 2))\<rparr>"
  let ?d = "\<lparr>cantidad = PyInt (2 ^ 1024), precioUnitario = PyInt 1\<rparr>"
  have m1: "map item_entero [(2, 100)] = [?a]"
    and m2: "map item_entero [(1, 100), (1, 100)] = [?b, ?b]"
    and m4: "map item_entero [(2 ^ 1024, 1)] = [?d]"
    by (simp_all add: item_entero_def)
  note t1 = calcular_totales_A [where qps = "[(2, 100)]"]
  from t1 have s1: "py_sum_gen importe_item (PyInt 0) [?a] = Inr (PyInt 200)"
    unfolding m1 by simp
  from t1 have 1: "calcular_totales [?a] ''A'' =
     Inr \<lparr>subtotal = PyInt 200, iva = PyFloat (Fin 42), total = PyFloat (Fin 242)\<rparr>"
    unfolding m1 by (simp add: valores_ejemplo_1 del: py_round2.simps(2) fmul.simps fadd.simps)
  note t2 = calcular_totales_A [where qps = "[(1, 100), (1, 100)]"]
  from t2 have s2: "py_sum_gen importe_item (PyInt 0) [?b, ?b] = Inr (PyInt 200)"
    unfolding m2 by simp
  from t2 have 2: "calcular_totales [?b, ?b] ''A'' =
     Inr \<lparr>subtotal = PyInt 200, iva = PyFloat (Fin 42), total = PyFloat (Fin 242)\<rparr>"
    unfolding m2 by (simp add: valores_ejemplo_1 del: py_round2.simps(2) fmul.simps fadd.simps)
  note t3 = calcular_totales_A [where its = "[?a]" and it = ?c]
  from t3 have "py_sum_gen importe_item (PyInt 0) ([?a] @ [?c]) =
     (case py_sum_gen importe_item (PyInt 0) [?a] of
        Inl e \<Rightarrow> Inl e
      | Inr s \<Rightarrow> (case py_mul (cantidad ?c) (precioUnitario ?c) of
                   Inl e \<Rightarrow> Inl e
                 | Inr v \<Rightarrow> py_add s v))"
    by (rule conjunct2 [THEN conjunct1])
  then have s3: "py_sum_gen importe_item (PyInt 0) [?a, ?c] = Inr (PyFloat (Fin (403 / 2)))"
    unfolding s1 by (simp add: valores_ejemplo_mixto del: py_mul.simps py_add.simps)
  from calcular_totales_A
         [where its = "[?a, ?c]" and s = "PyFloat (Fin (403 / 2))" and a = "Fin (403 / 2)"] s3
  have 3: "calcular_totales [?a, ?c] ''A'' =
     Inr \<lparr>subtotal = PyFloat (Fin (403 / 2)), iva = PyFloat (fl (4231 / 100)),
          total = PyFloat (fl (24381 / 100))\<rparr>"
    by (simp add: valores_ejemplo_mixto del: py_round2.simps(2) fmul.simps fadd.simps)
  from calcular_totales_A [where qps = "[(2 ^ 1024, 1)]"]
  have s4: "py_sum_gen importe_item (PyInt 0) [?d] = Inr (PyInt (2 ^ 1024))"
    unfolding m4 by simp
  have "to_float (PyInt (2 ^ 1024)) = Inl OverflowError"
    by (simp add: float_of_int_desborda)
  with calcular_totales_A
         [where its = "[?d]" and s = "PyInt (2 ^ 1024)" and e = OverflowError] s4
  have 4: "calcular_totales [?d] ''A'' = Inl OverflowError" by blast
  from 1 s2 2 s3 3 4 show ?thesis by blast
qed

text \<open>
  The claim as stated, with ties rounded up, fails on the item of quantity 1 and price
  0.125: the sum is 0.125 exactly, the code's subtotal is 0.12, half-up gives 0.13.
\<close>

theorem calcular_totales_A_half_up_counterexample:
  "py_sum_gen importe_item (PyInt 0)
       [\<lparr>cantidad = PyInt 1, precioUnitario = PyFloat (Fin (1 / 8))\<rparr>] =
     Inr (PyFloat (Fin (1 / 8))) \<and>
   calcular_totales [\<lparr>cantidad = PyInt 1, precioUnitario = PyFloat (Fin (1 / 8))\<rparr>] ''A'' =
     Inr \<lparr>subtotal = PyFloat (fl (3 / 25)), iva = PyFloat (fl (3 / 100)),
          total = PyFloat (fl (3 / 20))\<rparr> \<and>
   redondear_half_up (PyFloat (Fin (1 / 8))) = PyFloat (fl (13 / 100)) \<and>
   fl (3 / 25) \<noteq> fl (13 / 100)"
  by (simp add: calcular_totales_def evaluar)

section \<open>Totals of series B\<close>

lemma fsub_mismo: "fsub x x = (case x of Fin r \<Rightarrow> Fin 0 | _ \<Rightarrow> NaN)"
  by (cases x) (simp_all add: fsub_def fl_def)

lemma redondeo_resta_misma:
  "py_round2 (PyFloat (fsub T T)) = (case T of Fin r \<Rightarrow> PyFloat (Fin 0) | _ \<Rightarrow> PyFloat NaN)"
  by (cases T) (simp_all add: fsub_mismo round_half_even_def fl_def)

text \<open>
  C2, as amended. The sum of the items starts from the \<open>int\<close> 0 and adds the product
  of quantity and price of each item in turn, with Python's arithmetic: for items of
  \<open>int\<close> quantity and price it is the exact sum of the products, and floats are
  multiplied and added one at a time, left to right. For every list of items whose sum
  is \<open>s\<close>, and \<open>a\<close> the float of \<open>s\<close>, the series-B computation returns total = \<open>a\<close>
  plus \<open>a\<close> times 0.21, two float operations, rounded to two decimals by Python's
  \<open>round\<close>; the subtotal field equals the total; the tax is 0 when that sum is finite
  (and NaN when it is not); it raises where the sum does, or where the sum is an \<open>int\<close>
  too large for a float. For the single item of quantity 1 and price 121 the total is
  146.41. The total agrees with the sum times 1.21 only up to the rounding of the float
  operations.
\<close>

theorem calcular_totales_B:
  "py_sum_gen importe_item (PyInt 0) [] = Inr (PyInt 0) \<and>
   py_sum_gen importe_item (PyInt 0) (its @ [it]) =
     (case py_sum_gen importe_item (PyInt 0) its of
        Inl e \<Rightarrow> Inl e
      | Inr s \<Rightarrow> (case py_mul (cantidad it) (precioUnitario it) of
                   Inl e \<Rightarrow> Inl e
                 | Inr v \<Rightarrow> py_add s v)) \<and>
   py_sum_gen importe_item (PyInt 0) (map item_entero qps) =
     Inr (PyInt (sum_list (map (\<lambda>qp. fst qp * snd qp) qps))) \<and>
   (tp \<noteq> ''A'' \<and> \<bar>sum_list (map (\<lambda>qp. fst qp * snd qp) qps)\<bar> \<le> 2 ^ 1023 \<longrightarrow>
      (\<exists>t. calcular_totales (map item_entero qps) tp = Inr t \<and>
           total t = py_round2 (PyFloat
             (fadd (Fin (rnd (of_int (sum_list (map (\<lambda>qp. fst qp * snd qp) qps)))))
                (fmul (Fin (rnd (of_int (sum_list (map (\<lambda>qp. fst qp * snd qp) qps)))))
                   (fl (21 / 100))))) \<and>
           subtotal t = total t)) \<and>
   (tp \<noteq> ''A'' \<and> py_sum_gen importe_item (PyInt 0) its = Inr s \<and> to_float s = Inr a \<longrightarrow>
      (\<exists>t. calcular_totales its tp = Inr t \<and>
           total t = py_round2 (PyFloat (fadd a (fmul a (fl (21 / 100))))) \<and>
           subtotal t = total t \<and>
           iva t = (case fadd a (fmul a (fl (21 / 100))) of
                      Fin r \<Rightarrow> PyFloat (Fin 0) | _ \<Rightarrow> PyFloat NaN))) \<and>
   (tp \<noteq> ''A'' \<and> py_sum_gen importe_item (PyInt 0) its = Inr s \<and> to_float s = Inl e \<longrightarrow>
      calcular_totales its tp = Inl e) \<and>
   (py_sum_gen importe_item (PyInt 0) its = Inl e \<longrightarrow> calcular_totales its tp = Inl e)"
proof (intro conjI impI)
  show "py_sum_gen importe_item (PyInt 0) [] = Inr (PyInt 0)" by simp
  show "py_sum_gen importe_item (PyInt 0) (its @ [it]) =
     (case py_sum_gen importe_item (PyInt 0) its of
        Inl e \<Rightarrow> Inl e
      | Inr s \<Rightarrow> (case py_mul (cantidad it) (precioUnitario it) of
                   Inl e \<Rightarrow> Inl e
                 | Inr v \<Rightarrow> py_add s v))"
    by (rule suma_items_snoc)
  show "py_sum_gen importe_item (PyInt 0) (map item_entero qps) =
     Inr (PyInt (sum_list (map (\<lambda>qp. fst qp * snd qp) qps)))"
    by (rule suma_items_enteros)
next
  define S where "S = sum_list (map (\<lambda>qp. fst qp * snd qp) qps)"
  assume h: "tp \<noteq> ''A'' \<and> \<bar>sum_list (map (\<lambda>qp. fst qp * snd qp) qps)\<bar> \<le> 2 ^ 1023"
  then have "\<bar>S\<bar> \<le> 2 ^ 1023" by (simp add: S_def)
  then have "to_float (PyInt S) = Inr (Fin (rnd (of_int S)))"
    by (simp add: float_of_int_en_rango)
  from calcular_totales_valores [OF suma_items_enteros [of qps, folded S_def] this, of tp] h
  show "\<exists>t. calcular_totales (map item_entero qps) tp = Inr t \<and>
           total t = py_round2 (PyFloat
             (fadd (Fin (rnd (of_int (sum_list (map (\<lambda>qp. fst qp * snd qp) qps)))))
                (fmul (Fin (rnd (of_int (sum_list (map (\<lambda>qp. fst qp * snd qp) qps)))))
                   (fl (21 / 100))))) \<and>
           subtotal t = total t"
    by (simp add: S_def del: py_round2.simps(2) fmul.simps fadd.simps)
next
  assume h: "tp \<noteq> ''A'' \<and> py_sum_gen importe_item (PyInt 0) its = Inr s \<and> to_float s = Inr a"
  define T where "T = fadd a (fmul a (fl (21 / 100)))"
  from h have s: "py_sum_gen importe_item (PyInt 0) its = Inr s" and a: "to_float s = Inr a"
    by simp_all
  from calcular_totales_valores [OF s a, of tp] h
  have c: "calcular_totales its tp =
      Inr \<lparr>subtotal = py_round2 (PyFloat T), iva = py_round2 (PyFloat (fsub T T)),
           total = py_round2 (PyFloat T)\<rparr>"
    by (simp add: T_def del: py_round2.simps)
  show "\<exists>t. calcular_totales its tp = Inr t \<and>
           total t = py_round2 (PyFloat (fadd a (fmul a (fl (21 / 100))))) \<and>
           subtotal t = total t \<and>
           iva t = (case fadd a (fmul a (fl (21 / 100))) of
                      Fin r \<Rightarrow> PyFloat (Fin 0) | _ \<Rightarrow> PyFloat NaN)"
    unfolding c redondeo_resta_misma T_def [symmetric] by simp
next
  assume "tp \<noteq> ''A'' \<and> py_sum_gen importe_item (PyInt 0) its = Inr s \<and> to_float s = Inl e"
  then show "calcular_totales its tp = Inl e"
    by (cases s) (simp_all add: calcular_totales_def importe_iva_def py_float_op_def)
next
  assume "py_sum_gen importe_item (PyInt 0) its = Inl e"
  then show "calcular_totales its tp = Inl e"
    by (simp add: calcular_totales_def)
qed

lemma valores_ejemplo_2:
  "to_float (PyInt 121) = Inr (Fin 121)"
  "fadd (Fin 121) (fmul (Fin 121) (fl (21 / 100))) = fl (14641 / 100)"
  "fl (14641 / 100) = Fin (5151343917525893 / 35184372088832)"
  "py_round2 (PyFloat (Fin (5151343917525893 / 35184372088832))) =
     PyFloat (Fin (5151343917525893 / 35184372088832))"
  by (simp_all add: evaluar)

lemma valores_ejemplo_mixto_2:
  "py_mul (PyInt 3) (PyFloat (Fin (1 / 2))) = Inr (PyFloat (Fin (3 / 2)))"
  "py_add (PyInt 121) (PyFloat (Fin (3 / 2))) = Inr (PyFloat (Fin (245 / 2)))"
  "fadd (Fin (245 / 2)) (fmul (Fin (245 / 2)) (fl (21 / 100))) = fl (5929 / 40)"
  "fl (5929 / 40) = Fin (5215203552867123 / 35184372088832)"
  "py_round2 (PyFloat (Fin (5215203552867123 / 35184372088832))) = PyFloat (fl (7411 / 50))"
  by (simp_all add: evaluar)

theorem calcular_totales_B_witness:
  "calcular_totales [\<lparr>cantidad = PyInt 1, precioUnitario = PyInt 121\<rparr>] ''B'' =
     Inr \<lparr>subtotal = PyFloat (fl (14641 / 100)), iva = PyFloat (Fin 0),
          total = PyFloat (fl (14641 / 100))\<rparr> \<and>
   py_sum_gen importe_item (PyInt 0)
       [\<lparr>cantidad = PyInt 1, precioUnitario = PyInt 100\<rparr>,
        \<lparr>cantidad = PyInt 1, precioUnitario = PyInt 21\<rparr>] = Inr (PyInt 121) \<and>
   calcular_totales
       [\<lparr>cantidad = PyInt 1, precioUnitario = PyInt 100\<rparr>,
        \<lparr>cantidad = PyInt 1, precioUnitario = PyInt 21\<rparr>] ''B'' =
     Inr \<lparr>subtotal = PyFloat (fl (14641 / 100)), iva = PyFloat (Fin 0),
          total = PyFloat (fl (14641 / 100))\<rparr> \<and>
   py_sum_gen importe_item (PyInt 0)
       [\<lparr>cantidad = PyInt 1, precioUnitario = PyInt 121\<rparr>,
        \<lparr>cantidad = PyInt 3, precioUnitario = PyFloat (Fin (1 / 2))\<rparr>] =
     Inr (PyFloat (Fin (245 / 2))) \<and>
   calcular_totales
       [\<lparr>cantidad = PyInt 1, precioUnitario = PyInt 121\<rparr>,
        \<lparr>cantidad = PyInt 3, precioUnitario = PyFloat (Fin (1 / 2))\<rparr>] ''B'' =
     Inr \<lparr>subtotal = PyFloat (fl (7411 / 50)), iva = PyFloat (Fin 0),
          total = PyFloat (fl (7411 / 50))\<rparr> \<and>
   calcular_totales [\<lparr>cantidad = PyInt (2 ^ 1024), precioUnitario = PyInt 1\<rparr>] ''B'' =
     Inl OverflowError"
proof -
  let ?a = "\<lparr>cantidad = PyInt 1, precioUnitario = PyInt 121\<rparr>"
  let ?b1 = "\<lparr>cantidad = PyInt 1, precioUnitario = PyInt 100\<rparr>"
  let ?b2 = "\<lparr>cantidad = PyInt 1, precioUnitario = PyInt 21\<rparr>"
  let ?c = "\<lparr>cantidad = PyInt 3, precioUnitario = PyFloat (Fin (1 / 2))\<rparr>"
  let ?d = "\<lparr>cantidad = PyInt (2 ^ 1024), precioUnitario = PyInt 1\<rparr>"
  have m1: "map item_entero [(1, 121)] = [?a]"
    and m2: "map item_entero [(1, 100), (1, 21)] = [?b1, ?b2]"
    and m4: "map item_entero [(2 ^ 1024, 1)] = [?d]"
    by (simp_all add: item_entero_def)
  have B: "''B'' \<noteq> ''A''" by simp
  have r: "calcular_totales its ''B'' =
     Inr \<lparr>subtotal = PyFloat (fl (14641 / 100)), iva = PyFloat (Fin 0),
          total = PyFloat (fl (14641 / 100))\<rparr>"
    if s: "py_sum_gen importe_item (PyInt 0) its = Inr (PyInt 121)" for its
  proof -
    from calcular_totales_B [where tp = "''B''" and its = its and s = "PyInt 121" and a = "Fin 121"]
      B s valores_ejemplo_2(1)
    obtain t where t: "calcular_totales its ''B'' = Inr t"
      "total t = py_round2 (PyFloat (fadd (Fin 121) (fmul (Fin 121) (fl (21 / 100)))))"
      "subtotal t = total t"
      "iva t = (case fadd (Fin 121) (fmul (Fin 121) (fl (21 / 100))) of
                      Fin r \<Rightarrow> PyFloat (Fin 0) | _ \<Rightarrow> PyFloat NaN)"
      by blast
    have "total t = PyFloat (fl (14641 / 100))" "iva t = PyFloat (Fin 0)"
      using t(2,4) by (simp_all only: valores_ejemplo_2 pyfloat.case)
    with t(1,3) show ?thesis by (cases t) simp
  qed
  from calcular_totales_B [where qps = "[(1, 121)]"]
  have s1: "py_sum_gen importe_item (PyInt 0) [?a] = Inr (PyInt 121)"
    unfolding m1 by simp
  note 1 = r [OF s1]
  from calcular_totales_B [where qps = "[(1, 100), (1, 21)]"]
  have s2: "py_sum_gen importe_item (PyInt 0) [?b1, ?b2] = Inr (PyInt 121)"
    unfolding m2 by simp
  note 2 = r [OF s2]
  from calcular_totales_B [where its = "[?a]" and it = ?c]
  have "py_sum_gen importe_item (PyInt 0) ([?a] @ [?c]) =
     (case py_sum_gen importe_item (PyInt 0) [?a] of
        Inl e \<Rightarrow> Inl e
      | Inr s \<Rightarrow> (case py_mul (cantidad ?c) (precioUnitario ?c) of
                   Inl e \<Rightarrow> Inl e
                 | Inr v \<Rightarrow> py_add s v))"
    by (rule conjunct2 [THEN conjunct1])
  then have s3: "py_sum_gen importe_item (PyInt 0) [?a, ?c] = Inr (PyFloat (Fin (245 / 2)))"
    unfolding s1 by (simp add: valores_ejemplo_mixto_2 del: py_mul.simps py_add.simps)
  have f3: "to_float (PyFloat (Fin (245 / 2))) = Inr (Fin (245 / 2))" by simp
  from calcular_totales_B
         [where tp = "''B''" and its = "[?a, ?c]" and s = "PyFloat (Fin (245 / 2))"
            and a = "Fin (245 / 2)"] B s3 f3
  obtain t where t: "calcular_totales [?a, ?c] ''B'' = Inr t"
    "total t = py_round2 (PyFloat (fadd (Fin (245 / 2)) (fmul (Fin (245 / 2)) (fl (21 / 100)))))"
    "subtotal t = total t"
    "iva t = (case fadd (Fin (245 / 2)) (fmul (Fin (245 / 2)) (fl (21 / 100))) of
                    Fin r \<Rightarrow> PyFloat (Fin 0) | _ \<Rightarrow> PyFloat NaN)"
    by blast
  have "total t = PyFloat (fl (7411 / 50))" "iva t = PyFloat (Fin 0)"
    using t(2,4) by (simp_all only: valores_ejemplo_mixto_2 pyfloat.case)
  with t(1,3) have 3: "calcular_totales [?a, ?c] ''B'' =
     Inr \<lparr>subtotal = PyFloat (fl (7411 / 50)), iva = PyFloat (Fin 0),
          total = PyFloat (fl (7411 / 50))\<rparr>"
    by (cases t) simp
  from calcular_totales_B [where qps = "[(2 ^ 1024, 1)]"]
  have s4: "py_sum_gen importe_item (PyInt 0) [?d] = Inr (PyInt (2 ^ 1024))"
    unfolding m4 by simp
  have "to_float (PyInt (2 ^ 1024)) = Inl OverflowError"
    by (simp add: float_of_int_desborda)
  with calcular_totales_B
         [where tp = "''B''" and its = "[?d]" and s = "PyInt (2 ^ 1024)" and e = OverflowError]
       B s4
  have 4: "calcular_totales [?d] ''B'' = Inl OverflowError" by blast
  from 1 s2 2 s3 3 4 show ?thesis by blast
qed

text \<open>
  The claim as stated fails in both readings of "sum times 1.21, rounded". For quantity 1
  and price 3.5 the code's total is 4.24 and Python's \<open>round(3.5 * 1.21, 2)\<close> is 4.23.
  For quantity 1 and price 1.5 the code's total is 1.81 and the exact product 1.815
  rounds to 1.82.
\<close>

theorem calcular_totales_B_counterexample:
  "py_sum_gen importe_item (PyInt 0)
       [\<lparr>cantidad = PyInt 1, precioUnitario = PyFloat (Fin (7 / 2))\<rparr>] =
     Inr (PyFloat (Fin (7 / 2))) \<and>
   calcular_totales [\<lparr>cantidad = PyInt 1, precioUnitario = PyFloat (Fin (7 / 2))\<rparr>] ''B'' =
     Inr \<lparr>subtotal = PyFloat (fl (106 / 25)), iva = PyFloat (Fin 0),
          total = PyFloat (fl (106 / 25))\<rparr> \<and>
   total_B_segun_spec (PyFloat (Fin (7 / 2))) = Inr (PyFloat (fl (423 / 100))) \<and>
   fl (106 / 25) \<noteq> fl (423 / 100) \<and>
   py_sum_gen importe_item (PyInt 0)
       [\<lparr>cantidad = PyInt 1, precioUnitario = PyFloat (Fin (3 / 2))\<rparr>] =
     Inr (PyFloat (Fin (3 / 2))) \<and>
   calcular_totales [\<lparr>cantidad = PyInt 1, precioUnitario = PyFloat (Fin (3 / 2))\<rparr>] ''B'' =
     Inr \<lparr>subtotal = PyFloat (fl (181 / 100)), iva = PyFloat (Fin 0),
          total = PyFloat (fl (181 / 100))\<rparr> \<and>
   total_B_exacto (3 / 2) = fl (91 / 50) \<and>
   fl (181 / 100) \<noteq> fl (91 / 50)"
  by (simp add: calcular_totales_def total_B_segun_spec_def total_B_exacto_def evaluar)

end
